theory Spec2Isabelle
  imports Complex_Main "HOL-Library.Sublist"
begin

section \<open>Python values used by the launcher\<close>

text \<open>
  Exceptions of the Python code are values: a function that can raise returns
  \<open>py_error + 'a\<close>, with \<open>Inl\<close> for the exception.

  A \<open>char\<close> stands for one ASCII character of a Python \<open>str\<close>. Python's case mapping and
  whitespace tables for code points above 127 are not part of the model.
\<close>

datatype py_error = ValueError | IndexError | KeyError | ZeroDivisionError | OSError

subsection \<open>str methods\<close>

definition is_space :: "char \<Rightarrow> bool" where
  \<comment> \<open>\<open>str.isspace\<close> on ASCII: TAB, LF, VT, FF, CR, FS, GS, RS, US and the blank\<close>
  "is_space c = (let n = (of_char c :: nat) in (9 \<le> n \<and> n \<le> 13) \<or> (28 \<le> n \<and> n \<le> 32))"

definition upper_char :: "char \<Rightarrow> char" where
  "upper_char c = (let n = (of_char c :: nat) in if 97 \<le> n \<and> n \<le> 122 then char_of (n - 32) else c)"

definition lower_char :: "char \<Rightarrow> char" where
  "lower_char c = (let n = (of_char c :: nat) in if 65 \<le> n \<and> n \<le> 90 then char_of (n + 32) else c)"

definition py_upper :: "string \<Rightarrow> string" where
  "py_upper s = map upper_char s"

definition py_lower :: "string \<Rightarrow> string" where
  "py_lower s = map lower_char s"

definition py_strip :: "string \<Rightarrow> string" where
  \<comment> \<open>\<open>s.strip()\<close>\<close>
  "py_strip s = rev (dropWhile is_space (rev (dropWhile is_space s)))"

fun split_ws :: "string \<Rightarrow> string \<Rightarrow> string list" where
  \<comment> \<open>the word being read, then the characters still to read\<close>
  "split_ws cur [] = (if cur = [] then [] else [cur])"
| "split_ws cur (c # cs) =
     (if is_space c then (if cur = [] then split_ws [] cs else cur # split_ws [] cs)
      else split_ws (cur @ [c]) cs)"

definition py_split :: "string \<Rightarrow> string list" where
  \<comment> \<open>\<open>s.split()\<close>: the maximal runs of characters that are not whitespace\<close>
  "py_split s = split_ws [] s"

definition py_replace :: "char \<Rightarrow> char \<Rightarrow> string \<Rightarrow> string" where
  \<comment> \<open>\<open>s.replace(a, b)\<close> for one-character \<open>a\<close> and \<open>b\<close>\<close>
  "py_replace a b s = map (\<lambda>c. if c = a then b else c) s"

definition py_getitem :: "'a list \<Rightarrow> nat \<Rightarrow> py_error + 'a" where
  \<comment> \<open>\<open>xs[i]\<close> for an index that is not negative\<close>
  "py_getitem xs i = (if i < length xs then Inr (xs ! i) else Inl IndexError)"

subsection \<open>int(s, 16)\<close>

definition int_space :: "char \<Rightarrow> bool" where
  \<comment> \<open>the whitespace \<open>int()\<close> skips around an ASCII literal: TAB, LF, VT, FF, CR and the blank\<close>
  "int_space c = (let n = (of_char c :: nat) in (9 \<le> n \<and> n \<le> 13) \<or> n = 32)"

definition hex_digit :: "char \<Rightarrow> nat option" where
  "hex_digit c =
     (let n = (of_char c :: nat) in
      if 48 \<le> n \<and> n \<le> 57 then Some (n - 48)
      else if 97 \<le> n \<and> n \<le> 102 then Some (n - 87)
      else if 65 \<le> n \<and> n \<le> 70 then Some (n - 55)
      else None)"

fun scan_digits :: "char \<Rightarrow> string \<Rightarrow> int \<Rightarrow> (int \<times> string) option" where
  \<comment> \<open>the previous character, the text, the value so far; the result is the value and the
      text after the digits, or \<open>None\<close> for a doubled or trailing underscore\<close>
  "scan_digits prev [] acc = (if prev = CHR ''_'' then None else Some (acc, []))"
| "scan_digits prev (c # cs) acc =
     (if c = CHR ''_'' then (if prev = CHR ''_'' then None else scan_digits c cs acc)
      else case hex_digit c of
             Some d \<Rightarrow> scan_digits c cs (acc * 16 + int d)
           | None \<Rightarrow> (if prev = CHR ''_'' then None else Some (acc, c # cs)))"

definition py_int16 :: "string \<Rightarrow> py_error + int" where
  \<comment> \<open>\<open>int(s, 16)\<close>: whitespace, a sign, an optional \<open>0x\<close> and one underscore, the digits
      with single underscores between them, whitespace\<close>
  "py_int16 s =
     (let s1 = dropWhile int_space s;
          neg = (case s1 of [] \<Rightarrow> False | c # _ \<Rightarrow> c = CHR ''-'');
          s2 = (case s1 of [] \<Rightarrow> s1
                | c # r \<Rightarrow> if c = CHR ''+'' \<or> c = CHR ''-'' then r else s1);
          s3 = (case s2 of
                  a # b # r \<Rightarrow>
                    if a = CHR ''0'' \<and> (b = CHR ''x'' \<or> b = CHR ''X'')
                    then (case r of [] \<Rightarrow> r | u # r' \<Rightarrow> if u = CHR ''_'' then r' else r)
                    else s2
                | _ \<Rightarrow> s2)
      in if (case s3 of [] \<Rightarrow> False | c # _ \<Rightarrow> c = CHR ''_'') then Inl ValueError
         else case scan_digits (CHR 0x00) s3 0 of
                None \<Rightarrow> Inl ValueError
              | Some (v, rest) \<Rightarrow>
                  if length rest = length s3 \<or> dropWhile int_space rest \<noteq> []
                  then Inl ValueError
                  else Inr (if neg then - v else v))"

section \<open>icon\_generator.py\<close>

type_synonym rgb = "int \<times> int \<times> int"

definition get_initials :: "string \<Rightarrow> py_error + string" where
  "get_initials text =
     (let words = py_split (py_strip text) in
      if words = [] then Inr ''?''
      else if length words = 1 then Inr (py_upper (take 2 (words ! 0)))
      else case py_getitem (words ! 0) 0 of
             Inl e \<Rightarrow> Inl e
           | Inr a \<Rightarrow> (case py_getitem (words ! 1) 0 of
                         Inl e \<Rightarrow> Inl e
                       | Inr b \<Rightarrow> Inr (py_upper ([a] @ [b]))))"

definition hex_to_rgb :: "string \<Rightarrow> py_error + rgb" where
  \<comment> \<open>\<open>lstrip('#')\<close> removes every leading \<open>#\<close>; the slices \<open>[0:2]\<close>, \<open>[2:4]\<close>, \<open>[4:6]\<close> are read
      in this order\<close>
  "hex_to_rgb hex_color =
     (let h = dropWhile (\<lambda>c. c = CHR ''#'') hex_color in
      case py_int16 (take 2 h) of
        Inl e \<Rightarrow> Inl e
      | Inr r \<Rightarrow> (case py_int16 (take 2 (drop 2 h)) of
                    Inl e \<Rightarrow> Inl e
                  | Inr g \<Rightarrow> (case py_int16 (take 2 (drop 4 h)) of
                                Inl e \<Rightarrow> Inl e
                              | Inr b \<Rightarrow> Inr (r, g, b))))"

text \<open>The accepted form of the specification: an optional \<open>#\<close>, then exactly 6 hex digits.\<close>

definition spec_hex_form :: "string \<Rightarrow> bool" where
  "spec_hex_form s =
     (let t = (case s of [] \<Rightarrow> s | c # r \<Rightarrow> if c = CHR ''#'' then r else s)
      in length t = 6 \<and> list_all (\<lambda>c. hex_digit c \<noteq> None) t)"

definition hex_pair :: "char \<Rightarrow> char \<Rightarrow> int" where
  "hex_pair a b = 16 * int (the (hex_digit a)) + int (the (hex_digit b))"

definition spec_hex_value :: "string \<Rightarrow> rgb" where
  "spec_hex_value s =
     (let t = (case s of [] \<Rightarrow> s | c # r \<Rightarrow> if c = CHR ''#'' then r else s)
      in (hex_pair (t ! 0) (t ! 1), hex_pair (t ! 2) (t ! 3), hex_pair (t ! 4) (t ! 5)))"

section \<open>Floating point and colours\<close>

text \<open>
  A Python \<open>float\<close> is an IEEE 754 double. It is modelled by the rational number it denotes:
  \<open>fl\<close> rounds a rational to the nearest double, ties to even, with 53 bits of precision and
  the subnormal spacing \<open>2\<^sup>-\<^sup>1\<^sup>0\<^sup>7\<^sup>4\<close>, and every arithmetic operation on floats rounds its exact
  result with \<open>fl\<close>. Overflow to infinity, NaN and the sign of zero are not modelled; the
  colour arithmetic stays far from them.
\<close>

definition pow2 :: "int \<Rightarrow> rat" where
  "pow2 e = (if 0 \<le> e then 2 ^ nat e else 1 / 2 ^ nat (- e))"

function bit_length :: "int \<Rightarrow> int" where
  \<comment> \<open>the number of binary digits of a positive integer\<close>
  "bit_length n = (if n \<le> 0 then 0 else 1 + bit_length (n div 2))"
  by auto
termination
  by (relation "measure nat") auto

definition ilog2 :: "rat \<Rightarrow> int" where
  \<comment> \<open>the integer part of the binary logarithm of a positive rational\<close>
  "ilog2 x = (if 1 \<le> x then bit_length \<lfloor>x\<rfloor> - 1 else - bit_length (\<lceil>1 / x\<rceil> - 1))"

definition round_half_even :: "rat \<Rightarrow> int" where
  \<comment> \<open>the nearest integer, a tie going to the even one (Python's \<open>round\<close>)\<close>
  "round_half_even x =
     (let n = \<lfloor>x\<rfloor>; d = x - of_int n
      in if d < 1 / 2 then n else if 1 / 2 < d then n + 1 else if even n then n else n + 1)"

definition fl :: "rat \<Rightarrow> rat" where
  "fl x =
     (if x = 0 then 0
      else let e = max (ilog2 \<bar>x\<bar> - 52) (- 1074)
           in of_int (round_half_even (x / pow2 e)) * pow2 e)"

definition py_int :: "rat \<Rightarrow> int" where
  \<comment> \<open>\<open>int(x)\<close> of a float: truncation toward zero\<close>
  "py_int x = (if 0 \<le> x then \<lfloor>x\<rfloor> else \<lceil>x\<rceil>)"

definition fdiv :: "rat \<Rightarrow> rat \<Rightarrow> py_error + rat" where
  \<comment> \<open>\<open>a / b\<close>\<close>
  "fdiv a b = (if b = 0 then Inl ZeroDivisionError else Inr (fl (a / b)))"

definition fmod1 :: "rat \<Rightarrow> rat" where
  \<comment> \<open>\<open>x % 1.0\<close>: the exact \<open>fmod\<close>, moved up by one when it is negative\<close>
  "fmod1 x = (let m = x - of_int (py_int x) in if m < 0 then fl (m + 1) else m)"

subsection \<open>colorsys\<close>

definition rgb_to_hsv :: "rat \<Rightarrow> rat \<Rightarrow> rat \<Rightarrow> py_error + rat \<times> rat \<times> rat" where
  "rgb_to_hsv r g b =
     (let maxc = max r (max g b);
          minc = min r (min g b);
          rangec = fl (maxc - minc);
          v = maxc
      in if minc = maxc then Inr (0, 0, v)
         else case fdiv rangec maxc of
           Inl e \<Rightarrow> Inl e
         | Inr s \<Rightarrow>
           (case fdiv (fl (maxc - r)) rangec of
              Inl e \<Rightarrow> Inl e
            | Inr rc \<Rightarrow>
              (case fdiv (fl (maxc - g)) rangec of
                 Inl e \<Rightarrow> Inl e
               | Inr gc \<Rightarrow>
                 (case fdiv (fl (maxc - b)) rangec of
                    Inl e \<Rightarrow> Inl e
                  | Inr bc \<Rightarrow>
                      Inr (fmod1 (fl ((if r = maxc then fl (bc - gc)
                                       else if g = maxc then fl (fl (2 + rc) - bc)
                                       else fl (fl (4 + gc) - rc)) / 6)),
                           s, v)))))"

definition hsv_to_rgb :: "rat \<Rightarrow> rat \<Rightarrow> rat \<Rightarrow> rat \<times> rat \<times> rat" where
  \<comment> \<open>\<open>i % 6\<close> is one of 0 to 5, so the last branch is the case 5\<close>
  "hsv_to_rgb h s v =
     (if s = 0 then (v, v, v)
      else
        let i = py_int (fl (h * 6));
            f = fl (fl (h * 6) - of_int i);
            p = fl (v * fl (1 - s));
            q = fl (v * fl (1 - fl (s * f)));
            t = fl (v * fl (1 - fl (s * fl (1 - f))));
            i6 = i mod 6
        in if i6 = 0 then (v, t, p)
           else if i6 = 1 then (q, v, p)
           else if i6 = 2 then (p, v, t)
           else if i6 = 3 then (p, q, v)
           else if i6 = 4 then (t, p, v)
           else (v, p, q))"

subsection \<open>lighten\_color and darken\_color\<close>

definition channels :: "(rat \<Rightarrow> int) \<Rightarrow> rat \<times> rat \<times> rat \<Rightarrow> rgb" where
  \<comment> \<open>the three values times 255, each made an integer by \<open>to_int\<close>\<close>
  "channels to_int c =
     (case c of (r, g, b) \<Rightarrow> (to_int (fl (r * 255)), to_int (fl (g * 255)), to_int (fl (b * 255))))"

definition lighten_color :: "rgb \<Rightarrow> rat \<Rightarrow> py_error + rgb" where
  "lighten_color rgb factor =
     (case rgb of (r, g, b) \<Rightarrow>
        (case rgb_to_hsv (fl (of_int r / 255)) (fl (of_int g / 255)) (fl (of_int b / 255)) of
           Inl e \<Rightarrow> Inl e
         | Inr (h, s, v) \<Rightarrow> Inr (channels py_int (hsv_to_rgb h s (min 1 (fl (v + factor)))))))"

definition darken_color :: "rgb \<Rightarrow> rat \<Rightarrow> py_error + rgb" where
  "darken_color rgb factor =
     (case rgb of (r, g, b) \<Rightarrow>
        (case rgb_to_hsv (fl (of_int r / 255)) (fl (of_int g / 255)) (fl (of_int b / 255)) of
           Inl e \<Rightarrow> Inl e
         | Inr (h, s, v) \<Rightarrow> Inr (channels py_int (hsv_to_rgb h s (max 0 (fl (v - factor)))))))"

text \<open>
  The transform as the specification words it: to HSV, the factor added to (or subtracted
  from) V, V clamped to \<open>[0, 1]\<close>, back to RGB, each channel made an integer by \<open>to_int\<close>.
\<close>

definition clamp01 :: "rat \<Rightarrow> rat" where
  "clamp01 x = max 0 (min 1 x)"

definition spec_adjust :: "(rat \<Rightarrow> int) \<Rightarrow> rgb \<Rightarrow> rat \<Rightarrow> py_error + rgb" where
  \<comment> \<open>\<open>delta\<close> is the factor for lighten and its negative for darken\<close>
  "spec_adjust to_int rgb delta =
     (case rgb of (r, g, b) \<Rightarrow>
        (case rgb_to_hsv (fl (of_int r / 255)) (fl (of_int g / 255)) (fl (of_int b / 255)) of
           Inl e \<Rightarrow> Inl e
         | Inr (h, s, v) \<Rightarrow> Inr (channels to_int (hsv_to_rgb h s (clamp01 (fl (v + delta)))))))"

definition valid_rgb :: "rgb \<Rightarrow> bool" where
  "valid_rgb c = (case c of (r, g, b) \<Rightarrow> 0 \<le> r \<and> r \<le> 255 \<and> 0 \<le> g \<and> g \<le> 255 \<and> 0 \<le> b \<and> b \<le> 255)"

subsection \<open>The background of generate\_icon\<close>

text \<open>
  An image is the list of its rows, top row first, each row the list of its pixels.
  \<open>Image.new\<close> fills the square with the background colour; with the gradient requested,
  the loop over \<open>y\<close> computes the colour of row \<open>y\<close> and the loop over \<open>x\<close> puts it on every
  pixel of the row.
\<close>

definition new_image :: "nat \<Rightarrow> rgb \<Rightarrow> rgb list list" where
  \<comment> \<open>\<open>Image.new('RGB', (size, size), bg_color)\<close>\<close>
  "new_image side c = replicate side (replicate side c)"

definition gradient_channel :: "nat \<Rightarrow> int \<Rightarrow> int \<Rightarrow> nat \<Rightarrow> int" where
  \<comment> \<open>\<open>int(bg * (1 - ratio) + darker * ratio)\<close> with \<open>ratio = y / size\<close>\<close>
  "gradient_channel side c d y =
     (let ratio = fl (of_nat y / of_nat side)
      in py_int (fl (fl (of_int c * fl (1 - ratio)) + fl (of_int d * ratio))))"

definition gradient_row :: "nat \<Rightarrow> rgb \<Rightarrow> rgb \<Rightarrow> nat \<Rightarrow> rgb" where
  \<comment> \<open>the colour \<open>(r, g, b)\<close> of row \<open>y\<close>\<close>
  "gradient_row side bg darker y =
     (case bg of (r0, g0, b0) \<Rightarrow>
        (case darker of (r1, g1, b1) \<Rightarrow>
           (gradient_channel side r0 r1 y, gradient_channel side g0 g1 y,
            gradient_channel side b0 b1 y)))"

definition fill_row :: "nat \<Rightarrow> rgb \<Rightarrow> rgb list \<Rightarrow> rgb list" where
  \<comment> \<open>\<open>for x in range(size): img.putpixel((x, y), c)\<close> on row \<open>y\<close>\<close>
  "fill_row side c row = fold (\<lambda>x r. r[x := c]) [0..<side] row"

definition gradient_image :: "nat \<Rightarrow> rgb \<Rightarrow> rgb \<Rightarrow> rgb list list \<Rightarrow> rgb list list" where
  \<comment> \<open>\<open>for y in range(size): ...\<close>\<close>
  "gradient_image side bg darker img =
     fold (\<lambda>y im. im[y := fill_row side (gradient_row side bg darker y) (im ! y)]) [0..<side] img"

definition icon_background :: "nat \<Rightarrow> rgb \<Rightarrow> bool \<Rightarrow> py_error + rgb list list" where
  \<comment> \<open>the image of \<open>generate_icon\<close> before the text and the border are drawn; \<open>0.15\<close> is the
      double nearest to 15/100\<close>
  "icon_background side bg with_gradient =
     (if with_gradient
      then (case darken_color bg (fl (15 / 100)) of
              Inl e \<Rightarrow> Inl e
            | Inr darker \<Rightarrow> Inr (gradient_image side bg darker (new_image side bg)))
      else Inr (new_image side bg))"

section \<open>main.py\<close>

text \<open>
  The launcher is modelled on a POSIX system (\<open>platform.system()\<close> is not \<open>Windows\<close>, paths
  are \<open>posixpath\<close> paths). The Tk widgets are left out: the form fields, the selection and the
  answers to the message boxes are arguments, and console logging is not recorded.
\<close>

subsection \<open>os.path\<close>

definition path_join :: "string \<Rightarrow> string \<Rightarrow> string" where
  \<comment> \<open>\<open>os.path.join(a, b)\<close>\<close>
  "path_join a b =
     (if b \<noteq> [] \<and> hd b = CHR ''/'' then b
      else if a = [] \<or> last a = CHR ''/'' then a @ b
      else a @ ''/'' @ b)"

definition basename :: "string \<Rightarrow> string" where
  "basename p = rev (takeWhile (\<lambda>c. c \<noteq> CHR ''/'') (rev p))"

definition dirname :: "string \<Rightarrow> string" where
  "dirname p =
     (let head = rev (dropWhile (\<lambda>c. c \<noteq> CHR ''/'') (rev p))
      in if head \<noteq> [] \<and> \<not> list_all (\<lambda>c. c = CHR ''/'') head
         then rev (dropWhile (\<lambda>c. c = CHR ''/'') (rev head))
         else head)"

subsection \<open>Application descriptors and the launcher's state\<close>

record icon_settings =
  bg_color :: string
  text_color :: string
  bold :: bool
  gradient :: bool

text \<open>
  An application is a Python dict. The keys \<open>name\<close>, \<open>venv\<close> and \<open>script\<close> are read with
  \<open>app[...]\<close> and are always present in a dict the launcher built; every other key may be
  absent (\<open>None\<close>). For \<open>last_run\<close> an absent key and the value \<open>None\<close> are the same here.
\<close>

record app_config =
  name :: string
  venv :: string
  script :: string
  args :: "string option"
  workdir :: "string option"
  created :: "string option"
  last_run :: "string option"
  activation_script :: "string option"
  launcher_script :: "string option"
  desktop_file :: "string option"
  icon_path :: "string option"
  icon_type :: "string option"
  icon_settings :: "icon_settings option"
  icon_name :: "string option"

datatype content =
    Text string
  | Png string "rgb list list" rgb rgb bool
    \<comment> \<open>an icon file: the initials, the background image, the border colour, the text
        colour, bold\<close>

datatype stored =
    Missing
  | Unparsable
  | Stored "app_config list"
    \<comment> \<open>the registry file \<open>apps.json\<close>: absent, not JSON, or the list \<open>json.dump\<close> wrote\<close>

datatype event =
    Registry_saved "app_config list"
  | Spawned_xterm string
  | Spawned_bash string

record launcher =
  home :: string
  saved_apps :: "app_config list"
  apps_file :: stored
  files :: "string \<rightharpoonup> content \<times> bool"
  dirs :: "string \<Rightarrow> bool"
  read_only :: "string \<Rightarrow> bool"
  xterm_runs :: bool
  bash_runs :: bool
  events :: "event list"

text \<open>
  \<open>files\<close> maps a path to its contents and its executable bit, \<open>dirs\<close> holds the directories,
  \<open>read_only\<close> the paths \<open>open(path, 'w')\<close> fails on. \<open>xterm_runs\<close> and \<open>bash_runs\<close> say whether
  \<open>subprocess.Popen\<close> starts the program or raises. \<open>events\<close> lists, oldest first, each
  successful write of the registry file and each process started.
\<close>

definition config_dir :: "launcher \<Rightarrow> string" where
  "config_dir st = path_join (home st) ''.python_app_launcher''"

definition scripts_dir :: "launcher \<Rightarrow> string" where
  "scripts_dir st = path_join (config_dir st) ''scripts''"

definition apps_file_path :: "launcher \<Rightarrow> string" where
  "apps_file_path st = path_join (config_dir st) ''apps.json''"

definition get_desktop_files_dir :: "launcher \<Rightarrow> string" where
  "get_desktop_files_dir st =
     path_join (path_join (path_join (home st) ''.local'') ''share'') ''applications''"

definition get_icons_dir :: "launcher \<Rightarrow> string" where
  "get_icons_dir st =
     path_join (path_join (path_join (path_join (home st) ''.local'') ''share'') ''icons'')
       ''python-launcher''"

definition safe_name :: "string \<Rightarrow> string" where
  \<comment> \<open>\<open>app_name.lower().replace(' ', '_').replace('-', '_')\<close>\<close>
  "safe_name app_name = py_replace (CHR ''-'') (CHR ''_'') (py_replace (CHR '' '') (CHR ''_'') (py_lower app_name))"

definition get_icon_path :: "launcher \<Rightarrow> string \<Rightarrow> string" where
  "get_icon_path st app_name = path_join (get_icons_dir st) (safe_name app_name @ ''.png'')"

definition path_exists :: "launcher \<Rightarrow> string \<Rightarrow> bool" where
  \<comment> \<open>\<open>os.path.exists\<close>\<close>
  "path_exists st p = (files st p \<noteq> None \<or> dirs st p)"

definition write_file :: "launcher \<Rightarrow> string \<Rightarrow> content \<Rightarrow> bool \<Rightarrow> py_error + launcher" where
  \<comment> \<open>\<open>open(p, 'w')\<close>, \<open>f.write\<close> and the \<open>os.chmod\<close> that follows\<close>
  "write_file st p c x =
     (if read_only st p then Inl OSError else Inr (st\<lparr>files := (files st)(p \<mapsto> (c, x))\<rparr>))"

subsection \<open>Script templates\<close>

definition lines_text :: "string list \<Rightarrow> string" where
  \<comment> \<open>the lines of a template, each ended by a newline\<close>
  "lines_text ls = concat (map (\<lambda>l. l @ [CHR 0x0A]) ls)"

definition quoted :: "string \<Rightarrow> string" where
  \<comment> \<open>the text between two double quotes\<close>
  "quoted s = [CHR 0x22] @ s @ [CHR 0x22]"

definition single_quoted :: "string \<Rightarrow> string" where
  \<comment> \<open>the text between two single quotes\<close>
  "single_quoted s = [CHR 0x27] @ s @ [CHR 0x27]"

definition app_args :: "app_config \<Rightarrow> string" where
  \<comment> \<open>\<open>app_config.get('args', '')\<close>\<close>
  "app_args app = (case args app of None \<Rightarrow> [] | Some a \<Rightarrow> a)"

definition app_workdir :: "app_config \<Rightarrow> string" where
  \<comment> \<open>\<open>app_config.get('workdir', os.path.dirname(script_path))\<close>\<close>
  "app_workdir app = (case workdir app of None \<Rightarrow> dirname (script app) | Some w \<Rightarrow> w)"

definition activation_script_content :: "app_config \<Rightarrow> string" where
  "activation_script_content app =
     lines_text
      [''#!/bin/bash'',
       ''echo '' @ quoted (''Running '' @ name app @ ''...''),
       ''echo '' @ quoted [],
       [],
       ''# Change to working directory'',
       ''cd '' @ quoted (app_workdir app),
       [],
       ''# Activate virtual environment'',
       ''echo '' @ quoted ''Activating virtual environment...'',
       ''source '' @ quoted (path_join (path_join (venv app) ''bin'') ''activate''),
       [],
       ''# Run the Python script'',
       ''echo '' @ quoted (''Running script: '' @ basename (script app)),
       ''python3 '' @ quoted (script app) @ '' '' @ app_args app,
       [],
       ''# Keep terminal open'',
       ''echo '' @ quoted [],
       ''echo '' @ quoted ''Script execution complete.'',
       ''read -p '' @ quoted ''Press Enter to exit...'']"

definition launcher_script_content :: "app_config \<Rightarrow> string \<Rightarrow> string" where
  "launcher_script_content app activation =
     lines_text
      [''#!/bin/bash'',
       ''xterm -title '' @ quoted (''Running: '' @ name app) @ '' -geometry 100x30 -e ''
         @ quoted (''bash -i '' @ single_quoted activation) @ '' &'']"

definition create_activation_script :: "launcher \<Rightarrow> app_config \<Rightarrow> py_error + string \<times> launcher" where
  "create_activation_script st app =
     (let script_filepath = path_join (scripts_dir st) (safe_name (name app) @ ''.sh'')
      in case write_file st script_filepath (Text (activation_script_content app)) True of
           Inl e \<Rightarrow> Inl e
         | Inr st' \<Rightarrow> Inr (script_filepath, st'))"

definition create_xterm_launcher ::
  "launcher \<Rightarrow> app_config \<Rightarrow> string \<Rightarrow> py_error + string \<times> launcher" where
  "create_xterm_launcher st app activation =
     (let launcher_filepath = path_join (scripts_dir st) (''launch_'' @ safe_name (name app) @ ''.sh'')
      in case write_file st launcher_filepath (Text (launcher_script_content app activation)) True of
           Inl e \<Rightarrow> Inl e
         | Inr st' \<Rightarrow> Inr (launcher_filepath, st'))"

subsection \<open>The registry\<close>

definition save_apps :: "launcher \<Rightarrow> launcher" where
  \<comment> \<open>the \<open>except\<close> branch only logs\<close>
  "save_apps st =
     (if read_only st (apps_file_path st) then st
      else st\<lparr>apps_file := Stored (saved_apps st),
              events := events st @ [Registry_saved (saved_apps st)]\<rparr>)"

definition json_load :: "stored \<Rightarrow> py_error + app_config list" where
  \<comment> \<open>\<open>json.load\<close> of the registry file, once it is known to exist\<close>
  "json_load f = (case f of Stored apps \<Rightarrow> Inr apps | _ \<Rightarrow> Inl ValueError)"

definition load_apps_try :: "launcher \<Rightarrow> py_error + launcher" where
  \<comment> \<open>the body of the \<open>try\<close> of \<open>load_apps\<close>\<close>
  "load_apps_try st =
     (if apps_file st \<noteq> Missing
      then (case json_load (apps_file st) of
              Inl e \<Rightarrow> Inl e
            | Inr apps \<Rightarrow> Inr (st\<lparr>saved_apps := apps\<rparr>))
      else Inr st)"

definition load_apps :: "launcher \<Rightarrow> launcher" where
  "load_apps st = (case load_apps_try st of Inl e \<Rightarrow> st\<lparr>saved_apps := []\<rparr> | Inr st' \<Rightarrow> st')"

definition init :: "launcher \<Rightarrow> launcher" where
  \<comment> \<open>\<open>__init__\<close>, from the state of the disk: the two directories, the empty list, the load\<close>
  "init env =
     load_apps
       (env\<lparr>dirs := (\<lambda>p. p = config_dir env \<or> p = scripts_dir env \<or> dirs env p),
             saved_apps := []\<rparr>)"

fun find_app :: "string \<Rightarrow> app_config list \<Rightarrow> nat option" where
  \<comment> \<open>the index of the first application with this name\<close>
  "find_app n [] = None"
| "find_app n (a # as) =
     (if name a = n then Some 0 else map_option Suc (find_app n as))"

definition run_script_file :: "launcher \<Rightarrow> string \<Rightarrow> launcher" where
  "run_script_file st script_path =
     (if \<not> path_exists st script_path then st
      else if xterm_runs st then st\<lparr>events := events st @ [Spawned_xterm script_path]\<rparr>
      else if bash_runs st then st\<lparr>events := events st @ [Spawned_bash script_path]\<rparr>
      else st)"

record form =
  app_name_var :: string
  venv_path_var :: string
  script_path_var :: string
  args_var :: string
  workdir_var :: string

definition form_config :: "form \<Rightarrow> string \<Rightarrow> app_config" where
  \<comment> \<open>the dict \<open>save_and_create_script\<close> builds; \<open>now\<close> is \<open>datetime.now().isoformat()\<close>\<close>
  "form_config f now =
     \<lparr>name = py_strip (app_name_var f), venv = py_strip (venv_path_var f),
      script = py_strip (script_path_var f), args = Some (py_strip (args_var f)),
      workdir = Some (py_strip (workdir_var f)), created = Some now, last_run = None,
      activation_script = None, launcher_script = None, desktop_file = None,
      icon_path = None, icon_type = None, icon_settings = None, icon_name = None\<rparr>"

definition upsert :: "app_config \<Rightarrow> app_config list \<Rightarrow> app_config list" where
  \<comment> \<open>lines 831 to 843, once the overwrite is confirmed\<close>
  "upsert app_config apps =
     (case find_app (name app_config) apps of
        Some i \<Rightarrow> apps[i := app_config]
      | None \<Rightarrow> apps @ [app_config])"

definition set_scripts :: "string \<Rightarrow> string \<Rightarrow> string \<Rightarrow> app_config list \<Rightarrow> app_config list" where
  \<comment> \<open>\<open>app['activation_script'] = a; app['launcher_script'] = l\<close> on the dict in the list\<close>
  "set_scripts n a l apps =
     (case find_app n apps of
        Some i \<Rightarrow> apps[i := (apps ! i)\<lparr>activation_script := Some a, launcher_script := Some l\<rparr>]
      | None \<Rightarrow> apps)"

definition save_and_create_script ::
  "launcher \<Rightarrow> form \<Rightarrow> string \<Rightarrow> bool \<Rightarrow> bool \<Rightarrow> py_error \<times> launcher + launcher" where
  \<comment> \<open>\<open>overwrite\<close> and \<open>run_now\<close> are the answers to the two questions; an exception leaves
      the callback with the state reached so far\<close>
  "save_and_create_script st f now overwrite run_now =
     (let app_config = form_config f now in
      if name app_config = [] then Inr st
      else if venv app_config = [] then Inr st
      else if script app_config = [] then Inr st
      else if \<not> path_exists st (venv app_config) then Inr st
      else if \<not> path_exists st (script app_config) then Inr st
      else if find_app (name app_config) (saved_apps st) \<noteq> None \<and> \<not> overwrite then Inr st
      else
        let st1 = save_apps (st\<lparr>saved_apps := upsert app_config (saved_apps st)\<rparr>) in
        case create_activation_script st1 app_config of
          Inl e \<Rightarrow> Inl (e, st1)
        | Inr (activation, st2) \<Rightarrow>
            (case create_xterm_launcher st2 app_config activation of
               Inl e \<Rightarrow> Inl (e, st2)
             | Inr (launcher_path, st3) \<Rightarrow>
                 let st4 = st3\<lparr>saved_apps :=
                             set_scripts (name app_config) activation launcher_path (saved_apps st3)\<rparr>
                 in Inr (if run_now then run_script_file st4 launcher_path else st4)))"

definition run_selected_app ::
  "launcher \<Rightarrow> string option \<Rightarrow> string \<Rightarrow> py_error \<times> launcher + launcher" where
  \<comment> \<open>\<open>selection\<close> is the name in the selected row, \<open>now\<close> is \<open>datetime.now().isoformat()\<close>\<close>
  "run_selected_app st selection now =
     (case selection of
        None \<Rightarrow> Inr st
      | Some app_name \<Rightarrow>
          (case find_app app_name (saved_apps st) of
             None \<Rightarrow> Inr st
           | Some i \<Rightarrow>
               let app = (saved_apps st ! i)\<lparr>last_run := Some now\<rparr>;
                   st1 = save_apps (st\<lparr>saved_apps := (saved_apps st)[i := app]\<rparr>)
               in if launcher_script app \<noteq> None \<and> path_exists st1 (the (launcher_script app))
                  then Inr (run_script_file st1 (the (launcher_script app)))
                  else
                    (case create_activation_script st1 app of
                       Inl e \<Rightarrow> Inl (e, st1)
                     | Inr (activation, st2) \<Rightarrow>
                         (case create_xterm_launcher st2 app activation of
                            Inl e \<Rightarrow> Inl (e, st2)
                          | Inr (launcher_path, st3) \<Rightarrow>
                              let app' = app\<lparr>activation_script := Some activation,
                                             launcher_script := Some launcher_path\<rparr>;
                                  st4 = save_apps (st3\<lparr>saved_apps := (saved_apps st3)[i := app']\<rparr>)
                              in Inr (run_script_file st4 launcher_path)))))"

subsection \<open>Desktop entries\<close>

record desktop_form =
  icon_type_var :: string
  bg_color_var :: string
  text_color_var :: string
  bold_icon_var :: bool
  gradient_icon_var :: bool
  custom_icon_path_var :: string
  icon_name_var :: string
  categories_var :: string
  terminal_var :: bool

definition or_default :: "string \<Rightarrow> string \<Rightarrow> string" where
  \<comment> \<open>\<open>s or d\<close> on strings\<close>
  "or_default s d = (if s = [] then d else s)"

definition makedirs :: "launcher \<Rightarrow> string \<Rightarrow> launcher" where
  \<comment> \<open>\<open>os.makedirs(d, exist_ok=True)\<close>; only the directory itself is recorded\<close>
  "makedirs st d = st\<lparr>dirs := (\<lambda>p. p = d \<or> dirs st p)\<rparr>"

definition generate_icon ::
  "launcher \<Rightarrow> nat \<Rightarrow> string \<Rightarrow> string \<Rightarrow> string \<Rightarrow> bool \<Rightarrow> string \<Rightarrow> bool
     \<Rightarrow> py_error + launcher" where
  \<comment> \<open>\<open>generate_icon\<close> of a generator of side \<open>side\<close>, with two colour strings and an output
      path: the steps that can raise, in the order of the source, and the file it saves.
      The border colour is \<open>darken_color(bg_color, 0.1)\<close>. The font and the placement of the
      text belong to the imaging library and are not part of the file's model.\<close>
  "generate_icon st side app_name bg text b output_path with_gradient =
     (case hex_to_rgb bg of
        Inl e \<Rightarrow> Inl e
      | Inr bg_rgb \<Rightarrow>
          (case hex_to_rgb text of
             Inl e \<Rightarrow> Inl e
           | Inr text_rgb \<Rightarrow>
               (case icon_background side bg_rgb with_gradient of
                  Inl e \<Rightarrow> Inl e
                | Inr img \<Rightarrow>
                    (case get_initials app_name of
                       Inl e \<Rightarrow> Inl e
                     | Inr initials \<Rightarrow>
                         (case darken_color bg_rgb (fl (1 / 10)) of
                            Inl e \<Rightarrow> Inl e
                          | Inr border \<Rightarrow>
                              write_file st output_path
                                (Png initials img border text_rgb b) False)))))"

definition desktop_icon ::
  "launcher \<Rightarrow> desktop_form \<Rightarrow> app_config \<Rightarrow> string \<times> app_config \<times> launcher" where
  \<comment> \<open>the icon reference of the entry, the updated dict and the state\<close>
  "desktop_icon st f app =
     (let icon_type = or_default (icon_type_var f) ''generate'' in
      if icon_type = ''generate'' then
        (let bg = or_default (bg_color_var f) ''#4285F4'';
             text = or_default (text_color_var f) ''#FFFFFF'';
             st1 = makedirs st (get_icons_dir st);
             icon = get_icon_path st (name app)
         in case generate_icon st1 256 (name app) bg text (bold_icon_var f) icon
                   (gradient_icon_var f) of
              Inl e \<Rightarrow> (''application-x-python'', app, st1)
            | Inr st2 \<Rightarrow>
                (icon,
                 app\<lparr>icon_path := Some icon, icon_type := Some ''generated'',
                     icon_settings := Some \<lparr>bg_color = bg, text_color = text,
                       bold = bold_icon_var f, gradient = gradient_icon_var f\<rparr>\<rparr>,
                 st2))
      else if icon_type = ''custom'' then
        (let custom_icon = custom_icon_path_var f in
         if custom_icon \<noteq> [] \<and> path_exists st custom_icon
         then (custom_icon, app\<lparr>icon_path := Some custom_icon, icon_type := Some ''custom''\<rparr>, st)
         else (''application-x-python'', app, st))
      else
        (let sys_icon = icon_name_var f in
         if sys_icon \<noteq> []
         then (sys_icon, app\<lparr>icon_type := Some ''system'', icon_name := Some sys_icon\<rparr>, st)
         else (''application-x-python'', app, st)))"

definition desktop_content :: "app_config \<Rightarrow> string \<Rightarrow> string \<Rightarrow> bool \<Rightarrow> string \<Rightarrow> string" where
  "desktop_content app exec_command icon terminal categories =
     lines_text
      [''[Desktop Entry]'',
       ''Type=Application'',
       ''Name='' @ name app,
       ''Comment=Python application - '' @ name app,
       ''Exec='' @ exec_command,
       ''Icon='' @ icon,
       ''Terminal='' @ (if terminal then ''true'' else ''false''),
       ''Categories='' @ categories,
       ''StartupNotify=true'',
       ''Version=1.0'',
       ''Path='' @ app_workdir app]"

definition desktop_exec :: "string \<Rightarrow> string" where
  \<comment> \<open>the \<open>Exec\<close> command for a script path\<close>
  "desktop_exec p = ''bash -i '' @ single_quoted p"

definition create_desktop_file ::
  "launcher \<Rightarrow> desktop_form \<Rightarrow> app_config
     \<Rightarrow> py_error \<times> launcher + string option \<times> app_config \<times> launcher" where
  \<comment> \<open>the returned path (\<open>None\<close> when the write failed), the dict as it is left, the state\<close>
  "create_desktop_file st f app =
     (let desktop_dir = get_desktop_files_dir st;
          st0 = makedirs st desktop_dir;
          desktop_filepath = path_join desktop_dir (safe_name (name app) @ ''.desktop'')
      in case (case launcher_script app of
                 Some l \<Rightarrow> Inr (l, st0)
               | None \<Rightarrow> create_activation_script st0 app) of
           Inl e \<Rightarrow> Inl (e, st0)
         | Inr (launcher_path, st1) \<Rightarrow>
             (case desktop_icon st1 f app of
                (icon, app1, st2) \<Rightarrow>
                  (let categories = or_default (categories_var f) ''Development'';
                       text = desktop_content app1 (desktop_exec launcher_path) icon
                                (terminal_var f) categories
                   in case write_file st2 desktop_filepath (Text text) True of
                        Inl e \<Rightarrow> Inr (None, app1, st2)
                      | Inr st3 \<Rightarrow>
                          Inr (Some desktop_filepath, app1\<lparr>desktop_file := Some desktop_filepath\<rparr>, st3))))"

definition generate_selected_desktop_file ::
  "launcher \<Rightarrow> desktop_form \<Rightarrow> string option \<Rightarrow> py_error \<times> launcher + launcher" where
  "generate_selected_desktop_file st f selection =
     (case selection of
        None \<Rightarrow> Inr st
      | Some app_name \<Rightarrow>
          (case find_app app_name (saved_apps st) of
             None \<Rightarrow> Inr st
           | Some i \<Rightarrow>
               (case create_desktop_file st f (saved_apps st ! i) of
                  Inl e \<Rightarrow> Inl e
                | Inr (desktop_path, app', st1) \<Rightarrow>
                    let st2 = st1\<lparr>saved_apps := (saved_apps st1)[i := app']\<rparr>
                    in Inr (if desktop_path \<noteq> None then save_apps st2 else st2))))"

definition state_after :: "py_error \<times> launcher + launcher \<Rightarrow> launcher" where
  \<comment> \<open>the state a callback leaves, whether it returned or raised\<close>
  "state_after r = (case r of Inl (e, st) \<Rightarrow> st | Inr st \<Rightarrow> st)"


definition activation_script_path :: "launcher \<Rightarrow> string \<Rightarrow> string" where
  \<comment> \<open>the path \<open>create_activation_script\<close> writes for an application name\<close>
  "activation_script_path st app_name = path_join (scripts_dir st) (safe_name app_name @ ''.sh'')"

definition launcher_script_path :: "launcher \<Rightarrow> string \<Rightarrow> string" where
  \<comment> \<open>the path \<open>create_xterm_launcher\<close> writes for an application name\<close>
  "launcher_script_path st app_name =
     path_join (scripts_dir st) (''launch_'' @ safe_name app_name @ ''.sh'')"

fun saves :: "launcher \<Rightarrow> (form \<times> string \<times> bool \<times> bool) list \<Rightarrow> launcher" where
  \<comment> \<open>a sequence of calls of \<open>save_and_create_script\<close>, each with its form, its time and its two
      answers, each continuing from the state the one before left\<close>
  "saves st [] = st"
| "saves st ((f, now, overwrite, run_now) # rest) =
     saves (state_after (save_and_create_script st f now overwrite run_now)) rest"

subsection \<open>The scenario of the specification\<close>

definition demo_form :: form where
  "demo_form =
     \<lparr>app_name_var = ''Demo'', venv_path_var = ''/home/u/.venvs/demo'',
      script_path_var = ''/home/u/demo/app.py'', args_var = ''--flag'',
      workdir_var = ''/home/u/demo''\<rparr>"

definition demo_app :: app_config where
  "demo_app = form_config demo_form ''2024-01-01T10:00:00''"

definition demo_env :: launcher where
  \<comment> \<open>a disk with the virtual environment and the script, and no registry file\<close>
  "demo_env =
     \<lparr>home = ''/home/u'', saved_apps = [], apps_file = Missing,
      files = [''/home/u/demo/app.py'' \<mapsto> (Text [], False)],
      dirs = (\<lambda>p. p = ''/home/u/.venvs/demo'' \<or> p = ''/home/u/demo''),
      read_only = (\<lambda>p. False), xterm_runs = True, bash_runs = True, events = []\<rparr>"

definition demo_desktop_form :: desktop_form where
  "demo_desktop_form =
     \<lparr>icon_type_var = ''generate'', bg_color_var = ''#4285F4'', text_color_var = ''#FFFFFF'',
      bold_icon_var = False, gradient_icon_var = True, custom_icon_path_var = [],
      icon_name_var = [], categories_var = ''Development'', terminal_var = False\<rparr>"

section \<open>Initials\<close>

lemma split_ws_nonempty: "w \<in> set (split_ws cur s) \<Longrightarrow> w \<noteq> []"
  by (induction cur s rule: split_ws.induct) (auto split: if_splits)

lemma py_split_nonempty: "w \<in> set (py_split s) \<Longrightarrow> w \<noteq> []"
  using split_ws_nonempty [of w "[]" s] by (simp add: py_split_def)

lemma get_initials_none: "py_split (py_strip text) = [] \<Longrightarrow> get_initials text = Inr ''?''"
  by (simp add: get_initials_def)

lemma get_initials_one:
  "py_split (py_strip text) = [w] \<Longrightarrow> get_initials text = Inr (py_upper (take 2 w))"
  by (simp add: get_initials_def)

lemma get_initials_two:
  assumes "py_split (py_strip text) = w1 # w2 # ws"
  shows "w1 \<noteq> [] \<and> w2 \<noteq> [] \<and> get_initials text = Inr (py_upper [hd w1, hd w2])"
proof -
  have n1: "w1 \<noteq> []" and n2: "w2 \<noteq> []"
    using py_split_nonempty [of w1 "py_strip text"] py_split_nonempty [of w2 "py_strip text"] assms
    by simp_all
  then have "w1 ! 0 = hd w1" "w2 ! 0 = hd w2"
    by (simp_all add: hd_conv_nth)
  with n1 n2 assms show ?thesis
    by (simp add: get_initials_def py_getitem_def)
qed

lemma initials_empty: "get_initials '''' = Inr ''?''"
  by code_simp

lemma initials_x: "get_initials ''x'' = Inr ''X''"
  by code_simp

lemma initials_ab: "get_initials ''ab'' = Inr ''AB''"
  by code_simp

lemma initials_my_app: "get_initials ''My App'' = Inr ''MA''"
  by code_simp

lemma initials_multi: "get_initials ''  multi   word name  '' = Inr ''MW''"
  by code_simp

text \<open>
  C9. \<open>get_initials\<close> maps the empty string to \<open>?\<close>, \<open>x\<close> to \<open>X\<close>, \<open>ab\<close> to \<open>AB\<close>,
  \<open>My App\<close> to \<open>MA\<close> and \<open>  multi   word name  \<close> to \<open>MW\<close>. For every text, with the words
  of the trimmed text split at whitespace: no word gives \<open>?\<close>; one word gives its first two
  characters in upper case (one character when the word has one); two or more words give
  the first characters of the first two words, in upper case. It never raises.
\<close>

theorem get_initials_spec:
  "get_initials '''' = Inr ''?''
   \<and> get_initials ''x'' = Inr ''X''
   \<and> get_initials ''ab'' = Inr ''AB''
   \<and> get_initials ''My App'' = Inr ''MA''
   \<and> get_initials ''  multi   word name  '' = Inr ''MW''
   \<and> (\<forall>text. case py_split (py_strip text) of
          [] \<Rightarrow> get_initials text = Inr ''?''
        | [w] \<Rightarrow> get_initials text = Inr (py_upper (take 2 w)) \<and> w \<noteq> []
                 \<and> (length w = 1 \<longrightarrow> get_initials text = Inr [upper_char (hd w)])
        | w1 # w2 # ws \<Rightarrow> w1 \<noteq> [] \<and> w2 \<noteq> []
                 \<and> get_initials text = Inr [upper_char (hd w1), upper_char (hd w2)])"
proof -
  have "case py_split (py_strip t) of
          [] \<Rightarrow> get_initials t = Inr ''?''
        | [w] \<Rightarrow> get_initials t = Inr (py_upper (take 2 w)) \<and> w \<noteq> []
                 \<and> (length w = 1 \<longrightarrow> get_initials t = Inr [upper_char (hd w)])
        | w1 # w2 # ws \<Rightarrow> w1 \<noteq> [] \<and> w2 \<noteq> []
                 \<and> get_initials t = Inr [upper_char (hd w1), upper_char (hd w2)]" for t
  proof (cases "py_split (py_strip t)")
    case Nil
    then show ?thesis by (simp add: get_initials_none)
  next
    case (Cons w1 rest)
    note outer = Cons
    show ?thesis
    proof (cases rest)
      case Nil
      with outer have one: "py_split (py_strip t) = [w1]" by simp
      have ne: "w1 \<noteq> []"
        using py_split_nonempty [of w1 "py_strip t"] one by simp
      have "length w1 = 1 \<Longrightarrow> py_upper (take 2 w1) = [upper_char (hd w1)]"
        by (cases w1) (simp_all add: py_upper_def)
      with one ne show ?thesis
        by (simp add: get_initials_one)
    next
      case (Cons w2 ws)
      with outer have two: "py_split (py_strip t) = w1 # w2 # ws" by simp
      from get_initials_two [OF two] two show ?thesis
        by (simp add: py_upper_def)
    qed
  qed
  then show ?thesis
    using initials_empty initials_x initials_ab initials_my_app initials_multi by blast
qed

theorem get_initials_spec_witness:
  "py_split (py_strip ''My App'') = [''My'', ''App'']
   \<and> get_initials ''My App'' = Inr [upper_char (hd ''My''), upper_char (hd ''App'')]"
proof -
  have s: "py_split (py_strip ''My App'') = [''My'', ''App'']"
    by (simp add: py_split_def py_strip_def is_space_def)
  from get_initials_spec have
    "case py_split (py_strip ''My App'') of
          [] \<Rightarrow> get_initials ''My App'' = Inr ''?''
        | [w] \<Rightarrow> get_initials ''My App'' = Inr (py_upper (take 2 w)) \<and> w \<noteq> []
                 \<and> (length w = 1 \<longrightarrow> get_initials ''My App'' = Inr [upper_char (hd w)])
        | w1 # w2 # ws \<Rightarrow> w1 \<noteq> [] \<and> w2 \<noteq> []
                 \<and> get_initials ''My App'' = Inr [upper_char (hd w1), upper_char (hd w2)]"
    by blast
  with s show ?thesis by simp
qed

section \<open>Hex colours\<close>

lemma hex_digit_plain:
  assumes "hex_digit c \<noteq> None"
  shows "\<not> int_space c" "c \<noteq> CHR ''+''" "c \<noteq> CHR ''-''" "c \<noteq> CHR ''_''"
    "c \<noteq> CHR ''x''" "c \<noteq> CHR ''X''" "c \<noteq> CHR ''#''"
  using assms by (auto simp: hex_digit_def int_space_def Let_def split: if_splits)

lemma py_int16_pair:
  assumes "hex_digit a \<noteq> None" "hex_digit b \<noteq> None"
  shows "py_int16 [a, b] = Inr (hex_pair a b)"
proof -
  from assms obtain x y where xy: "hex_digit a = Some x" "hex_digit b = Some y" by auto
  show ?thesis
    using hex_digit_plain [OF assms(1)] hex_digit_plain [OF assms(2)] xy
    by (simp add: py_int16_def hex_pair_def)
qed

lemma py_int16_error: "py_int16 s = Inl e \<Longrightarrow> e = ValueError"
  by (auto simp: py_int16_def Let_def split: if_splits option.splits prod.splits)

lemma hex_to_rgb_error: "hex_to_rgb s = Inl e \<Longrightarrow> e = ValueError"
  by (auto simp: hex_to_rgb_def Let_def split: sum.splits dest: py_int16_error)

lemma hex_to_rgb_digits:
  assumes "list_all (\<lambda>c. hex_digit c \<noteq> None) [a, b, c, d, e, f]"
  shows "hex_to_rgb (replicate n (CHR ''#'') @ [a, b, c, d, e, f])
         = Inr (hex_pair a b, hex_pair c d, hex_pair e f)"
proof -
  have a: "a \<noteq> CHR ''#''" using assms hex_digit_plain(7) [of a] by simp
  have "dropWhile (\<lambda>c. c = CHR ''#'') (replicate n (CHR ''#'') @ [a, b, c, d, e, f]) = [a, b, c, d, e, f]"
    using a by (induction n) simp_all
  then show ?thesis
    using assms by (simp add: hex_to_rgb_def py_int16_pair)
qed

lemma six: "length t = 6 \<Longrightarrow> \<exists>a b c d e f. t = [a, b, c, d, e, f]"
  by (auto simp: length_Suc_conv eval_nat_numeral)

text \<open>
  C2, as the code has it. \<open>hex_to_rgb\<close> removes every leading \<open>#\<close> and reads the characters
  at positions 0-1, 2-3 and 4-5 with \<open>int(..., 16)\<close>. Every string made of an optional
  \<open>#\<close> and exactly 6 hexadecimal digits is accepted and gives the triple of its three
  two-digit values. When the function fails, the exception is \<open>ValueError\<close>.
\<close>

theorem hex_to_rgb_accepts:
  "(spec_hex_form s \<longrightarrow> hex_to_rgb s = Inr (spec_hex_value s))
   \<and> (\<forall>e. hex_to_rgb s = Inl e \<longrightarrow> e = ValueError)"
proof -
  have "hex_to_rgb s = Inr (spec_hex_value s)" if sf: "spec_hex_form s"
  proof -
    define t where "t = (case s of [] \<Rightarrow> s | c # r \<Rightarrow> if c = CHR ''#'' then r else s)"
    from sf have len: "length t = 6" and hx: "list_all (\<lambda>c. hex_digit c \<noteq> None) t"
      by (simp_all add: spec_hex_form_def t_def Let_def)
    from six [OF len] obtain a b c d e f where t: "t = [a, b, c, d, e, f]" by blast
    have a: "a \<noteq> CHR ''#''" using hx t hex_digit_plain(7) [of a] by simp
    have "s = t \<or> s = CHR ''#'' # t"
      unfolding t_def by (cases s) auto
    then have "s = replicate 0 (CHR ''#'') @ t \<or> s = replicate 1 (CHR ''#'') @ t" by simp
    moreover have "spec_hex_value s = (hex_pair a b, hex_pair c d, hex_pair e f)"
      using t unfolding spec_hex_value_def t_def [symmetric] by simp
    ultimately show ?thesis
      using hex_to_rgb_digits [of a b c d e f 0] hex_to_rgb_digits [of a b c d e f 1] hx t
      by auto
  qed
  then show ?thesis using hex_to_rgb_error by blast
qed

theorem hex_to_rgb_accepts_witness:
  "spec_hex_form ''#4285F4'' \<and> hex_to_rgb ''#4285F4'' = Inr (66, 133, 244)"
proof -
  have f: "spec_hex_form ''#4285F4''" by code_simp
  have v: "spec_hex_value ''#4285F4'' = (66, 133, 244)" by code_simp
  from hex_to_rgb_accepts [of "''#4285F4''"] f v show ?thesis by simp
qed

text \<open>
  C2, as the specification states it, fails: strings that are not an optional \<open>#\<close> followed
  by exactly 6 hexadecimal digits are accepted too. Characters after the sixth are ignored,
  a fifth character alone is read as the last channel, several \<open>#\<close> are removed, and a
  sign or a blank inside a two-character field is taken by \<open>int\<close>.
\<close>

theorem hex_to_rgb_accepts_more:
  "hex_to_rgb ''1234567'' = Inr (18, 52, 86) \<and> \<not> spec_hex_form ''1234567''
   \<and> hex_to_rgb ''12345'' = Inr (18, 52, 5) \<and> \<not> spec_hex_form ''12345''
   \<and> hex_to_rgb ''##123456'' = Inr (18, 52, 86) \<and> \<not> spec_hex_form ''##123456''
   \<and> hex_to_rgb ''+1-2 3'' = Inr (1, - 2, 3) \<and> \<not> spec_hex_form ''+1-2 3''"
  by code_simp

section \<open>Loading the registry\<close>

text \<open>
  C8. At start-up (\<open>init\<close>, the only caller of \<open>load_apps\<close>) a missing registry file and a
  file that cannot be parsed both give the empty list of applications. A missing file leaves
  the state as it is, an unparsable one raises inside the \<open>try\<close> and the handler empties the
  list; \<open>load_apps\<close> itself returns in both cases.
\<close>

theorem load_apps_missing_or_unparsable:
  "(apps_file env = Missing \<or> apps_file env = Unparsable \<longrightarrow> saved_apps (init env) = [])
   \<and> (apps_file st = Missing \<longrightarrow> load_apps st = st)
   \<and> (apps_file st = Unparsable \<longrightarrow>
        load_apps_try st = Inl ValueError \<and> saved_apps (load_apps st) = [])"
  by (auto simp: init_def load_apps_def load_apps_try_def json_load_def)

theorem load_apps_missing_or_unparsable_witness:
  "apps_file demo_env = Missing \<and> saved_apps (init demo_env) = []
   \<and> apps_file (demo_env\<lparr>apps_file := Unparsable, saved_apps := [demo_app]\<rparr>) = Unparsable
   \<and> saved_apps (load_apps (demo_env\<lparr>apps_file := Unparsable, saved_apps := [demo_app]\<rparr>)) = []"
  using load_apps_missing_or_unparsable [of demo_env "demo_env\<lparr>apps_file := Unparsable, saved_apps := [demo_app]\<rparr>"]
  by (simp add: demo_env_def)

section \<open>Saving an application\<close>

lemma find_app_Some:
  "find_app n apps = Some i \<Longrightarrow> i < length apps \<and> name (apps ! i) = n \<and> (\<forall>j < i. name (apps ! j) \<noteq> n)"
proof (induction apps arbitrary: i)
  case Nil
  then show ?case by simp
next
  case (Cons a as)
  show ?case
  proof (cases "name a = n")
    case True
    with Cons.prems show ?thesis by simp
  next
    case False
    with Cons.prems obtain k where k: "find_app n as = Some k" "i = Suc k" by auto
    from Cons.IH [OF k(1)] False k(2) show ?thesis
      by (auto simp: less_Suc_eq_0_disj)
  qed
qed

lemma find_app_None: "find_app n apps = None \<longleftrightarrow> n \<notin> set (map name apps)"
  by (induction apps) auto

lemma map_name_update:
  "i < length apps \<Longrightarrow> name a = name (apps ! i) \<Longrightarrow> map name (apps[i := a]) = map name apps"
  by (simp add: map_update list_update_same_conv)

lemma upsert_names:
  "map name (upsert a apps) = (if name a \<in> set (map name apps) then map name apps else map name apps @ [name a])"
proof (cases "find_app (name a) apps")
  case None
  then have "name a \<notin> set (map name apps)" by (simp add: find_app_None)
  with None show ?thesis by (simp add: upsert_def)
next
  case (Some i)
  from find_app_Some [OF Some] have "i < length apps" "name (apps ! i) = name a" by simp_all
  moreover from Some have "name a \<in> set (map name apps)"
    using find_app_None [of "name a" apps] by simp
  ultimately show ?thesis using Some
    by (simp add: upsert_def map_name_update)
qed

lemma upsert_distinct: "distinct (map name apps) \<Longrightarrow> distinct (map name (upsert a apps))"
  by (simp add: upsert_names)

lemma upserts_distinct:
  "distinct (map name apps) \<Longrightarrow> distinct (map name (foldl (\<lambda>r a. upsert a r) apps as))"
  by (induction as arbitrary: apps) (simp_all add: upsert_distinct)

lemma upsert_name_set: "set (map name (upsert a apps)) = insert (name a) (set (map name apps))"
  unfolding upsert_names by auto

lemma upserts_names:
  "set (map name (foldl (\<lambda>r a. upsert a r) apps as)) = set (map name apps) \<union> set (map name as)"
proof (induction as arbitrary: apps)
  case Nil
  then show ?case by simp
next
  case (Cons a as)
  have "set (map name (foldl (\<lambda>r a. upsert a r) (upsert a apps) as))
        = insert (name a) (set (map name apps)) \<union> set (map name as)"
    unfolding Cons.IH upsert_name_set ..
  then show ?case by simp
qed

lemma save_apps_apps [simp]: "saved_apps (save_apps st) = saved_apps st"
  by (simp add: save_apps_def)

lemma write_file_apps: "write_file st p c x = Inr st' \<Longrightarrow> saved_apps st' = saved_apps st"
  by (auto simp: write_file_def split: if_splits)

lemma create_activation_script_apps:
  "create_activation_script st app = Inr (p, st') \<Longrightarrow> saved_apps st' = saved_apps st"
  by (auto simp: create_activation_script_def Let_def split: sum.splits dest: write_file_apps)

lemma create_xterm_launcher_apps:
  "create_xterm_launcher st app a = Inr (p, st') \<Longrightarrow> saved_apps st' = saved_apps st"
  by (auto simp: create_xterm_launcher_def Let_def split: sum.splits dest: write_file_apps)

lemma run_script_file_apps [simp]: "saved_apps (run_script_file st p) = saved_apps st"
  by (simp add: run_script_file_def)

lemma set_scripts_names [simp]: "map name (set_scripts n a l apps) = map name apps"
proof (cases "find_app n apps")
  case None
  then show ?thesis by (simp add: set_scripts_def)
next
  case (Some i)
  from find_app_Some [OF Some] Some show ?thesis
    by (simp add: set_scripts_def map_update list_update_same_conv)
qed

lemma set_scripts_created [simp]: "map created (set_scripts n a l apps) = map created apps"
proof (cases "find_app n apps")
  case None
  then show ?thesis by (simp add: set_scripts_def)
next
  case (Some i)
  from find_app_Some [OF Some] Some show ?thesis
    by (simp add: set_scripts_def map_update list_update_same_conv)
qed

lemma set_scripts_length [simp]: "length (set_scripts n a l apps) = length apps"
  by (simp add: set_scripts_def split: option.splits)

lemma save_and_create_script_apps:
  "saved_apps (state_after (save_and_create_script st f now ov rn)) = saved_apps st
   \<or> saved_apps (state_after (save_and_create_script st f now ov rn))
       = upsert (form_config f now) (saved_apps st)
   \<or> (\<exists>a l. saved_apps (state_after (save_and_create_script st f now ov rn))
         = set_scripts (name (form_config f now)) a l (upsert (form_config f now) (saved_apps st)))"
proof -
  let ?cfg = "form_config f now"
  let ?st1 = "save_apps (st\<lparr>saved_apps := upsert ?cfg (saved_apps st)\<rparr>)"
  let ?r = "save_and_create_script st f now ov rn"
  define pass where "pass \<longleftrightarrow> \<not> (name ?cfg = [] \<or> venv ?cfg = [] \<or> script ?cfg = []
      \<or> \<not> path_exists st (venv ?cfg) \<or> \<not> path_exists st (script ?cfg)
      \<or> (find_app (name ?cfg) (saved_apps st) \<noteq> None \<and> \<not> ov))"
  have unfold: "?r = (if pass then
        (case create_activation_script ?st1 ?cfg of
          Inl e \<Rightarrow> Inl (e, ?st1)
        | Inr (activation, st2) \<Rightarrow>
            (case create_xterm_launcher st2 ?cfg activation of
               Inl e \<Rightarrow> Inl (e, st2)
             | Inr (launcher_path, st3) \<Rightarrow>
                 Inr (if rn then run_script_file (st3\<lparr>saved_apps := set_scripts (name ?cfg) activation launcher_path (saved_apps st3)\<rparr>) launcher_path
                      else st3\<lparr>saved_apps := set_scripts (name ?cfg) activation launcher_path (saved_apps st3)\<rparr>)))
        else Inr st)"
    unfolding save_and_create_script_def pass_def Let_def by simp
  have "(?r = Inr st)
    \<or> (\<exists>e. ?r = Inl (e, ?st1))
    \<or> (\<exists>e a st2. create_activation_script ?st1 ?cfg = Inr (a, st2) \<and> ?r = Inl (e, st2))
    \<or> (\<exists>a st2 l st3. create_activation_script ?st1 ?cfg = Inr (a, st2) \<and>
        create_xterm_launcher st2 ?cfg a = Inr (l, st3) \<and>
        ?r = Inr (if rn then run_script_file (st3\<lparr>saved_apps := set_scripts (name ?cfg) a l (saved_apps st3)\<rparr>) l
                else st3\<lparr>saved_apps := set_scripts (name ?cfg) a l (saved_apps st3)\<rparr>))"
    unfolding unfold by (auto split: sum.splits prod.splits)
  then consider (same) "?r = Inr st"
    | (act) e where "?r = Inl (e, ?st1)"
    | (lau) e a st2 where "create_activation_script ?st1 ?cfg = Inr (a, st2)" "?r = Inl (e, st2)"
    | (ok) a st2 l st3 where "create_activation_script ?st1 ?cfg = Inr (a, st2)"
        "create_xterm_launcher st2 ?cfg a = Inr (l, st3)"
        "?r = Inr (if rn then run_script_file (st3\<lparr>saved_apps := set_scripts (name ?cfg) a l (saved_apps st3)\<rparr>) l
                else st3\<lparr>saved_apps := set_scripts (name ?cfg) a l (saved_apps st3)\<rparr>)"
    by blast
  then show ?thesis
  proof cases
    case same
    then show ?thesis by (simp add: state_after_def)
  next
    case act
    then show ?thesis by (simp add: state_after_def)
  next
    case lau
    from create_activation_script_apps [OF lau(1)] lau(2) show ?thesis
      by (simp add: state_after_def)
  next
    case ok
    from create_activation_script_apps [OF ok(1)] create_xterm_launcher_apps [OF ok(2)]
    have "saved_apps st3 = upsert ?cfg (saved_apps st)" by simp
    with ok(3) show ?thesis by (auto simp: state_after_def)
  qed
qed

lemma save_and_create_script_names:
  "map name (saved_apps (state_after (save_and_create_script st f now ov rn))) = map name (saved_apps st)
   \<or> map name (saved_apps (state_after (save_and_create_script st f now ov rn)))
       = map name (upsert (form_config f now) (saved_apps st))"
  using save_and_create_script_apps [of st f now ov rn] by (auto simp del: map_map)

lemma demo_app_name: "name demo_app = ''Demo''"
  by code_simp

section \<open>The creation time\<close>

lemma map_created_update:
  "i < length apps \<Longrightarrow> created a = created (apps ! i) \<Longrightarrow> map created (apps[i := a]) = map created apps"
  by (simp add: map_update list_update_same_conv)

lemma run_selected_app_created:
  "map created (saved_apps (state_after (run_selected_app st sel now))) = map created (saved_apps st)"
proof (cases sel)
  case None
  then show ?thesis by (simp add: run_selected_app_def state_after_def)
next
  case (Some n)
  show ?thesis
  proof (cases "find_app n (saved_apps st)")
    case None
    with Some show ?thesis by (simp add: run_selected_app_def state_after_def)
  next
    case (Some i)
    note i = find_app_Some [OF Some]
    let ?app = "(saved_apps st ! i)\<lparr>last_run := Some now\<rparr>"
    let ?apps1 = "(saved_apps st)[i := ?app]"
    let ?st1 = "save_apps (st\<lparr>saved_apps := ?apps1\<rparr>)"
    have c1: "map created ?apps1 = map created (saved_apps st)"
      using i by (simp add: map_created_update)
    have len1: "i < length ?apps1" using i by simp
    show ?thesis
    proof (cases "launcher_script ?app \<noteq> None \<and> path_exists ?st1 (the (launcher_script ?app))")
      case True
      then have "run_selected_app st sel now = Inr (run_script_file ?st1 (the (launcher_script ?app)))"
        using \<open>sel = Some n\<close> Some by (simp add: run_selected_app_def Let_def)
      then show ?thesis using c1 by (simp add: state_after_def)
    next
      case False
      then have r: "run_selected_app st sel now =
         (case create_activation_script ?st1 ?app of
            Inl e \<Rightarrow> Inl (e, ?st1)
          | Inr (activation, st2) \<Rightarrow>
              (case create_xterm_launcher st2 ?app activation of
                 Inl e \<Rightarrow> Inl (e, st2)
               | Inr (launcher_path, st3) \<Rightarrow>
                   Inr (run_script_file (save_apps (st3\<lparr>saved_apps := (saved_apps st3)
                      [i := ?app\<lparr>activation_script := Some activation,
                                   launcher_script := Some launcher_path\<rparr>]\<rparr>)) launcher_path)))"
        using \<open>sel = Some n\<close> Some
        by (auto simp: run_selected_app_def Let_def split: sum.splits prod.splits)
      show ?thesis
      proof (cases "create_activation_script ?st1 ?app")
        case (Inl e)
        with r c1 show ?thesis by (simp add: state_after_def)
      next
        case (Inr p)
        then obtain a st2 where a: "create_activation_script ?st1 ?app = Inr (a, st2)"
          by (cases p) auto
        have s2: "saved_apps st2 = ?apps1"
          using create_activation_script_apps [OF a] by simp
        show ?thesis
        proof (cases "create_xterm_launcher st2 ?app a")
          case (Inl e)
          with r a s2 c1 show ?thesis by (simp add: state_after_def)
        next
          case (Inr q)
          then obtain l st3 where l: "create_xterm_launcher st2 ?app a = Inr (l, st3)"
            by (cases q) auto
          have s3: "saved_apps st3 = ?apps1"
            using create_xterm_launcher_apps [OF l] s2 by simp
          have "map created (?apps1[i := ?app\<lparr>activation_script := Some a, launcher_script := Some l\<rparr>])
                = map created ?apps1"
            using len1 i by (simp add: map_created_update)
          with r a l s3 c1 show ?thesis by (simp add: state_after_def)
        qed
      qed
    qed
  qed
qed

lemma makedirs_apps [simp]: "saved_apps (makedirs st d) = saved_apps st"
  by (simp add: makedirs_def)

lemma generate_icon_apps:
  "generate_icon st k n bg tx b p g = Inr st' \<Longrightarrow> saved_apps st' = saved_apps st"
  by (auto simp: generate_icon_def split: sum.splits dest: write_file_apps)

lemma desktop_icon_keeps:
  assumes "desktop_icon st f app = (icon, app1, st2)"
  shows "created app1 = created app \<and> name app1 = name app \<and> launcher_script app1 = launcher_script app
         \<and> saved_apps st2 = saved_apps st"
  using assms
  by (auto simp: desktop_icon_def Let_def split: if_splits sum.splits dest: generate_icon_apps)

lemma create_desktop_file_keeps:
  "create_desktop_file st f app = Inr (p, app', st') \<Longrightarrow>
     created app' = created app \<and> name app' = name app \<and> launcher_script app' = launcher_script app
     \<and> saved_apps st' = saved_apps st"
  "create_desktop_file st f app = Inl (e, st') \<Longrightarrow> saved_apps st' = saved_apps st"
  by (auto simp: create_desktop_file_def Let_def
      split: sum.splits prod.splits option.splits
      dest!: desktop_icon_keeps create_activation_script_apps write_file_apps)

lemma generate_selected_desktop_file_created:
  "map created (saved_apps (state_after (generate_selected_desktop_file st f sel)))
   = map created (saved_apps st)"
proof (cases sel)
  case None
  then show ?thesis by (simp add: generate_selected_desktop_file_def state_after_def)
next
  case (Some n)
  show ?thesis
  proof (cases "find_app n (saved_apps st)")
    case None
    with Some show ?thesis by (simp add: generate_selected_desktop_file_def state_after_def)
  next
    case (Some i)
    note i = find_app_Some [OF Some]
    show ?thesis
    proof (cases "create_desktop_file st f (saved_apps st ! i)")
      case (Inl a)
      then obtain e st' where "create_desktop_file st f (saved_apps st ! i) = Inl (e, st')"
        by (cases a) auto
      with create_desktop_file_keeps(2) [OF this] \<open>sel = Some n\<close> Some show ?thesis
        by (simp add: generate_selected_desktop_file_def state_after_def)
    next
      case (Inr b)
      then obtain p app' st' where r: "create_desktop_file st f (saved_apps st ! i) = Inr (p, app', st')"
        by (cases b) auto
      from create_desktop_file_keeps(1) [OF r]
      have k: "created app' = created (saved_apps st ! i)" "saved_apps st' = saved_apps st" by simp_all
      have "map created ((saved_apps st)[i := app']) = map created (saved_apps st)"
        using i k by (simp add: map_created_update)
      with r k \<open>sel = Some n\<close> Some show ?thesis
        by (simp add: generate_selected_desktop_file_def state_after_def Let_def)
    qed
  qed
qed

lemma upsert_other:
  assumes "j < length apps" "name (apps ! j) \<noteq> name a"
  shows "j < length (upsert a apps) \<and> upsert a apps ! j = apps ! j"
proof (cases "find_app (name a) apps")
  case None
  with assms show ?thesis by (simp add: upsert_def nth_append)
next
  case (Some i)
  from find_app_Some [OF Some] assms have "i \<noteq> j" by auto
  with Some assms show ?thesis by (simp add: upsert_def)
qed

lemma find_app_names: "map name xs = map name ys \<Longrightarrow> find_app n xs = find_app n ys"
proof (induction xs arbitrary: ys)
  case Nil
  then show ?case by simp
next
  case (Cons x xs)
  then obtain y ys' where ys: "ys = y # ys'" by (cases ys) auto
  with Cons.prems have "name x = name y" "map name xs = map name ys'" by simp_all
  with Cons.IH [of ys'] ys show ?case by simp
qed

lemma find_app_append:
  "find_app n (xs @ [a]) = (case find_app n xs of Some i \<Rightarrow> Some i
      | None \<Rightarrow> if name a = n then Some (length xs) else None)"
  by (induction xs) (auto split: option.splits)

lemma find_app_upsert:
  "\<exists>i. find_app (name a) (upsert a apps) = Some i \<and> i < length (upsert a apps) \<and> upsert a apps ! i = a"
proof (cases "find_app (name a) apps")
  case None
  then show ?thesis by (simp add: upsert_def find_app_append)
next
  case (Some i)
  note i = find_app_Some [OF Some]
  have "map name (apps[i := a]) = map name apps"
    using i by (simp add: map_name_update)
  from find_app_names [OF this, of "name a"] Some i show ?thesis
    by (simp add: upsert_def)
qed

lemma nth_created:
  "map created xs = map created ys \<Longrightarrow> j < length ys \<Longrightarrow> created (xs ! j) = created (ys ! j)"
  by (metis length_map nth_map)

lemma form_config_created: "created (form_config f now) = Some now"
  by (simp add: form_config_def)

lemma save_and_create_script_created:
  fixes st f now ov rn
  defines "after \<equiv> saved_apps (state_after (save_and_create_script st f now ov rn))"
  shows "(\<forall>j < length (saved_apps st). name (saved_apps st ! j) \<noteq> name (form_config f now) \<longrightarrow>
            j < length after \<and> created (after ! j) = created (saved_apps st ! j))
         \<and> (after \<noteq> saved_apps st \<longrightarrow>
             (\<exists>i. find_app (name (form_config f now)) after = Some i \<and> created (after ! i) = Some now))"
proof -
  let ?cfg = "form_config f now"
  let ?up = "upsert ?cfg (saved_apps st)"
  from save_and_create_script_apps [of st f now ov rn]
  consider (same) "after = saved_apps st" | (up) "after = ?up"
    | (scr) a l where "after = set_scripts (name ?cfg) a l ?up"
    unfolding after_def by blast
  then show ?thesis
  proof cases
    case same
    then show ?thesis by simp
  next
    case up
    from find_app_upsert [of ?cfg "saved_apps st"] upsert_other [of _ "saved_apps st" ?cfg] up
    show ?thesis by (auto simp: form_config_created)
  next
    case scr
    have m: "map created after = map created ?up" "map name after = map name ?up"
      and len: "length after = length ?up"
      using scr by simp_all
    from find_app_upsert [of ?cfg "saved_apps st"] obtain i where
      i: "find_app (name ?cfg) ?up = Some i" "i < length ?up" "?up ! i = ?cfg" by blast
    have "find_app (name ?cfg) after = Some i"
      using find_app_names [OF m(2), of "name ?cfg"] i(1) by simp
    moreover have "created (after ! i) = Some now"
      using nth_created [OF m(1) i(2)] i(3) by (simp add: form_config_created)
    moreover have "j < length after \<and> created (after ! j) = created (saved_apps st ! j)"
      if "j < length (saved_apps st)" "name (saved_apps st ! j) \<noteq> name ?cfg" for j
    proof -
      from upsert_other [OF that] have u: "j < length ?up" "?up ! j = saved_apps st ! j" by simp_all
      with nth_created [OF m(1) u(1)] len show ?thesis by simp
    qed
    ultimately show ?thesis by blast
  qed
qed

text \<open>
  C5, as the code has it. Running an application from the registry and generating its
  desktop entry leave the creation time of every entry as it was, whether the callback
  returns or raises. A save leaves the creation time of every entry under another name as it
  was; whenever it changes the registry, the entry under the saved name carries the time of
  this save as its creation time.
\<close>

theorem created_preserved:
  "map created (saved_apps (state_after (run_selected_app st sel now))) = map created (saved_apps st)
   \<and> map created (saved_apps (state_after (generate_selected_desktop_file st df sel)))
       = map created (saved_apps st)
   \<and> (\<forall>j < length (saved_apps st). name (saved_apps st ! j) \<noteq> name (form_config f now) \<longrightarrow>
          j < length (saved_apps (state_after (save_and_create_script st f now ov rn)))
          \<and> created (saved_apps (state_after (save_and_create_script st f now ov rn)) ! j)
              = created (saved_apps st ! j))
   \<and> (saved_apps (state_after (save_and_create_script st f now ov rn)) \<noteq> saved_apps st \<longrightarrow>
        (\<exists>i. find_app (name (form_config f now))
                (saved_apps (state_after (save_and_create_script st f now ov rn))) = Some i
             \<and> created (saved_apps (state_after (save_and_create_script st f now ov rn)) ! i)
                 = Some now))"
  using run_selected_app_created [of st sel now]
    generate_selected_desktop_file_created [of st df sel]
    save_and_create_script_created [of st f now ov rn]
  by simp

theorem created_preserved_witness:
  "0 < length (saved_apps (demo_env\<lparr>saved_apps := [demo_app\<lparr>name := ''Other''\<rparr>]\<rparr>))
   \<and> name (saved_apps (demo_env\<lparr>saved_apps := [demo_app\<lparr>name := ''Other''\<rparr>]\<rparr>) ! 0)
       \<noteq> name (form_config demo_form ''2025-06-01T09:00:00'')
   \<and> created (saved_apps (state_after (save_and_create_script
         (demo_env\<lparr>saved_apps := [demo_app\<lparr>name := ''Other''\<rparr>]\<rparr>) demo_form
         ''2025-06-01T09:00:00'' True False)) ! 0)
       = created (saved_apps (demo_env\<lparr>saved_apps := [demo_app\<lparr>name := ''Other''\<rparr>]\<rparr>) ! 0)"
proof -
  let ?st = "demo_env\<lparr>saved_apps := [demo_app\<lparr>name := ''Other''\<rparr>]\<rparr>"
  have h1: "0 < length (saved_apps ?st)" by simp
  have h2: "name (saved_apps ?st ! 0) \<noteq> name (form_config demo_form ''2025-06-01T09:00:00'')"
    by code_simp
  from created_preserved [where st = ?st and f = demo_form and now = "''2025-06-01T09:00:00''"
      and ov = True and rn = False] h1 h2
  show ?thesis by blast
qed

text \<open>
  C5, as the specification states it, fails: saving the scenario's descriptor again under
  its name \<open>Demo\<close>, at a later time, leaves one entry \<open>Demo\<close> whose creation time is the
  time of the second save.
\<close>

theorem created_reset_by_overwrite:
  "map created (saved_apps (demo_env\<lparr>saved_apps := [demo_app]\<rparr>)) = [Some ''2024-01-01T10:00:00'']
   \<and> map name (saved_apps (demo_env\<lparr>saved_apps := [demo_app]\<rparr>)) = [''Demo'']
   \<and> map name (saved_apps (state_after (save_and_create_script (demo_env\<lparr>saved_apps := [demo_app]\<rparr>)
         demo_form ''2025-06-01T09:00:00'' True False))) = [''Demo'']
   \<and> map created (saved_apps (state_after (save_and_create_script (demo_env\<lparr>saved_apps := [demo_app]\<rparr>)
         demo_form ''2025-06-01T09:00:00'' True False))) = [Some ''2025-06-01T09:00:00'']"
  by code_simp

section \<open>The activation script\<close>

lemma activation_script_text:
  fixes app :: app_config
  defines "nl \<equiv> [CHR 0x0A]" and "dq \<equiv> [CHR 0x22]"
  shows "activation_script_content app =
      ''#!/bin/bash'' @ nl
    @ ''echo '' @ dq @ ''Running '' @ name app @ ''...'' @ dq @ nl
    @ ''echo '' @ dq @ dq @ nl
    @ nl
    @ ''# Change to working directory'' @ nl
    @ ''cd '' @ dq @ app_workdir app @ dq @ nl
    @ nl
    @ ''# Activate virtual environment'' @ nl
    @ ''echo '' @ dq @ ''Activating virtual environment...'' @ dq @ nl
    @ ''source '' @ dq @ path_join (path_join (venv app) ''bin'') ''activate'' @ dq @ nl
    @ nl
    @ ''# Run the Python script'' @ nl
    @ ''echo '' @ dq @ ''Running script: '' @ basename (script app) @ dq @ nl
    @ ''python3 '' @ dq @ script app @ dq @ '' '' @ app_args app @ nl
    @ nl
    @ ''# Keep terminal open'' @ nl
    @ ''echo '' @ dq @ dq @ nl
    @ ''echo '' @ dq @ ''Script execution complete.'' @ dq @ nl
    @ ''read -p '' @ dq @ ''Press Enter to exit...'' @ dq @ nl"
  by (simp add: activation_script_content_def lines_text_def quoted_def nl_def dq_def)

lemma venv_activate_path:
  "v \<noteq> [] \<Longrightarrow> last v \<noteq> CHR ''/'' \<Longrightarrow> path_join (path_join v ''bin'') ''activate'' = v @ ''/bin/activate''"
  by (simp add: path_join_def)

lemma create_activation_script_eq:
  "create_activation_script st app =
     (if read_only st (activation_script_path st (name app)) then Inl OSError
      else Inr (activation_script_path st (name app),
                st\<lparr>files := (files st)(activation_script_path st (name app)
                       \<mapsto> (Text (activation_script_content app), True))\<rparr>))"
  by (simp add: create_activation_script_def activation_script_path_def write_file_def Let_def)

lemma demo_script_lines:
  "prefix (''#!/bin/bash'' @ [CHR 0x0A]) (activation_script_content demo_app)
   \<and> sublist ([CHR 0x0A] @ ''source '' @ [CHR 0x22] @ ''/home/u/.venvs/demo/bin/activate'' @ [CHR 0x22, CHR 0x0A])
        (activation_script_content demo_app)
   \<and> sublist ([CHR 0x0A] @ ''python3 '' @ [CHR 0x22] @ ''/home/u/demo/app.py'' @ [CHR 0x22] @ '' --flag'' @ [CHR 0x0A])
        (activation_script_content demo_app)
   \<and> activation_script_path demo_env (name demo_app) = ''/home/u/.python_app_launcher/scripts/demo.sh''"
  by code_simp

text \<open>
  C6. On a path that can be written, \<open>create_activation_script\<close> returns the path
  \<open>scripts_dir/safe_name.sh\<close> and leaves there, executable, exactly the text below: the line
  \<open>#!/bin/bash\<close>, the announcement of the application's name, the \<open>cd\<close> into the working
  directory, the \<open>source\<close> of \<open>bin/activate\<close> under the virtual environment (the path
  \<open>os.path.join\<close> gives: the environment's path, a slash, \<open>bin/activate\<close>), the \<open>python3\<close> call
  on the quoted script path followed by the arguments as they are, and, as the last line,
  the prompt that waits for Enter; nothing else of the state changes. On a path that cannot
  be written it raises. For the descriptor of the scenario the file is
  \<open>/home/u/.python_app_launcher/scripts/demo.sh\<close>, it starts with the shebang line and it has the
  two lines of the specification.
\<close>

theorem activation_script_posix:
  fixes st :: launcher and app :: app_config
  defines "nl \<equiv> [CHR 0x0A]" and "dq \<equiv> [CHR 0x22]"
  defines "path \<equiv> path_join (scripts_dir st) (safe_name (name app) @ ''.sh'')"
  defines "text \<equiv>
      ''#!/bin/bash'' @ nl
    @ ''echo '' @ dq @ ''Running '' @ name app @ ''...'' @ dq @ nl
    @ ''echo '' @ dq @ dq @ nl
    @ nl
    @ ''# Change to working directory'' @ nl
    @ ''cd '' @ dq @ app_workdir app @ dq @ nl
    @ nl
    @ ''# Activate virtual environment'' @ nl
    @ ''echo '' @ dq @ ''Activating virtual environment...'' @ dq @ nl
    @ ''source '' @ dq @ path_join (path_join (venv app) ''bin'') ''activate'' @ dq @ nl
    @ nl
    @ ''# Run the Python script'' @ nl
    @ ''echo '' @ dq @ ''Running script: '' @ basename (script app) @ dq @ nl
    @ ''python3 '' @ dq @ script app @ dq @ '' '' @ app_args app @ nl
    @ nl
    @ ''# Keep terminal open'' @ nl
    @ ''echo '' @ dq @ dq @ nl
    @ ''echo '' @ dq @ ''Script execution complete.'' @ dq @ nl
    @ ''read -p '' @ dq @ ''Press Enter to exit...'' @ dq @ nl"
  shows "(\<not> read_only st path \<longrightarrow>
            create_activation_script st app
              = Inr (path, st\<lparr>files := (files st)(path \<mapsto> (Text text, True))\<rparr>))
       \<and> (read_only st path \<longrightarrow> create_activation_script st app = Inl OSError)
       \<and> activation_script_content app = text
       \<and> app_workdir app = (case workdir app of None \<Rightarrow> dirname (script app) | Some w \<Rightarrow> w)
       \<and> app_args app = (case args app of None \<Rightarrow> [] | Some a \<Rightarrow> a)
       \<and> (venv app \<noteq> [] \<and> last (venv app) \<noteq> CHR ''/'' \<longrightarrow>
            path_join (path_join (venv app) ''bin'') ''activate'' = venv app @ ''/bin/activate'')
       \<and> create_activation_script demo_env demo_app
            = Inr (''/home/u/.python_app_launcher/scripts/demo.sh'',
                   demo_env\<lparr>files := (files demo_env)(''/home/u/.python_app_launcher/scripts/demo.sh''
                       \<mapsto> (Text (activation_script_content demo_app), True))\<rparr>)
       \<and> prefix (''#!/bin/bash'' @ nl) (activation_script_content demo_app)
       \<and> sublist (nl @ ''source '' @ dq @ ''/home/u/.venvs/demo/bin/activate'' @ dq @ nl)
            (activation_script_content demo_app)
       \<and> sublist (nl @ ''python3 '' @ dq @ ''/home/u/demo/app.py'' @ dq @ '' --flag'' @ nl)
            (activation_script_content demo_app)"
proof -
  have t: "activation_script_content app = text"
    unfolding text_def nl_def dq_def by (rule activation_script_text)
  have p: "activation_script_path st (name app) = path"
    by (simp add: activation_script_path_def path_def)
  have ro: "\<not> read_only demo_env q" for q
    by (simp add: demo_env_def)
  have d: "create_activation_script demo_env demo_app
            = Inr (''/home/u/.python_app_launcher/scripts/demo.sh'',
                   demo_env\<lparr>files := (files demo_env)(''/home/u/.python_app_launcher/scripts/demo.sh''
                       \<mapsto> (Text (activation_script_content demo_app), True))\<rparr>)"
    using demo_script_lines ro by (simp add: create_activation_script_eq)
  show ?thesis
    using create_activation_script_eq [of st app] t p d demo_script_lines
      venv_activate_path [of "venv app"]
    by (simp add: app_workdir_def app_args_def nl_def dq_def)
qed

theorem activation_script_posix_witness:
  "\<not> read_only demo_env (path_join (scripts_dir demo_env) (safe_name (name demo_app) @ ''.sh''))
   \<and> venv demo_app \<noteq> [] \<and> last (venv demo_app) \<noteq> CHR ''/''
   \<and> path_join (path_join (venv demo_app) ''bin'') ''activate'' = ''/home/u/.venvs/demo/bin/activate''
   \<and> (\<exists>text. create_activation_script demo_env demo_app
         = Inr (path_join (scripts_dir demo_env) (safe_name (name demo_app) @ ''.sh''),
                demo_env\<lparr>files := (files demo_env)
                  (path_join (scripts_dir demo_env) (safe_name (name demo_app) @ ''.sh'')
                     \<mapsto> (Text text, True))\<rparr>)
         \<and> activation_script_content demo_app = text)"
proof -
  have ro: "\<not> read_only demo_env q" for q
    by (simp add: demo_env_def)
  have v: "venv demo_app = ''/home/u/.venvs/demo''" by code_simp
  from activation_script_posix [of demo_env demo_app] ro v show ?thesis
    by simp
qed


section \<open>Running a saved application\<close>

lemma create_activation_script_ok:
  "\<not> read_only st (activation_script_path st (name app)) \<Longrightarrow>
   create_activation_script st app =
     Inr (activation_script_path st (name app),
          st\<lparr>files := (files st)(activation_script_path st (name app)
                 \<mapsto> (Text (activation_script_content app), True))\<rparr>)"
  by (simp add: create_activation_script_def activation_script_path_def write_file_def Let_def)

lemma create_xterm_launcher_ok:
  "\<not> read_only st (launcher_script_path st (name app)) \<Longrightarrow>
   create_xterm_launcher st app a =
     Inr (launcher_script_path st (name app),
          st\<lparr>files := (files st)(launcher_script_path st (name app)
                 \<mapsto> (Text (launcher_script_content app a), True))\<rparr>)"
  by (simp add: create_xterm_launcher_def launcher_script_path_def write_file_def Let_def)

lemma paths_home [simp]:
  "activation_script_path (st\<lparr>files := fs\<rparr>) n = activation_script_path st n"
  "launcher_script_path (st\<lparr>files := fs\<rparr>) n = launcher_script_path st n"
  "apps_file_path (st\<lparr>files := fs\<rparr>) = apps_file_path st"
  "activation_script_path (st\<lparr>saved_apps := xs\<rparr>) n = activation_script_path st n"
  "launcher_script_path (st\<lparr>saved_apps := xs\<rparr>) n = launcher_script_path st n"
  "apps_file_path (st\<lparr>saved_apps := xs\<rparr>) = apps_file_path st"
  "activation_script_path (save_apps st) n = activation_script_path st n"
  "launcher_script_path (save_apps st) n = launcher_script_path st n"
  "apps_file_path (save_apps st) = apps_file_path st"
  by (simp_all add: activation_script_path_def launcher_script_path_def apps_file_path_def
      scripts_dir_def config_dir_def save_apps_def)

lemma save_apps_fields [simp]:
  "files (save_apps st) = files st" "dirs (save_apps st) = dirs st"
  "read_only (save_apps st) = read_only st" "xterm_runs (save_apps st) = xterm_runs st"
  "bash_runs (save_apps st) = bash_runs st"
  by (simp_all add: save_apps_def)

lemma save_apps_ok:
  "\<not> read_only st (apps_file_path st) \<Longrightarrow>
   apps_file (save_apps st) = Stored (saved_apps st)
   \<and> events (save_apps st) = events st @ [Registry_saved (saved_apps st)]"
  by (simp add: save_apps_def)

lemma run_script_file_fields [simp]:
  "apps_file (run_script_file st p) = apps_file st" "files (run_script_file st p) = files st"
  by (simp_all add: run_script_file_def)





section \<open>The desktop entry of an application without a recorded launcher\<close>

lemma write_file_env:
  "write_file st p c x = Inr st' \<Longrightarrow> read_only st' = read_only st \<and> home st' = home st"
  by (auto simp: write_file_def split: if_splits)

lemma generate_icon_env:
  "generate_icon st k n bg tx b p g = Inr st' \<Longrightarrow> read_only st' = read_only st \<and> home st' = home st"
  by (auto simp: generate_icon_def split: sum.splits dest: write_file_env)

lemma desktop_icon_env:
  assumes "desktop_icon st f app = (icon, app1, st2)"
  shows "read_only st2 = read_only st \<and> home st2 = home st
         \<and> name app1 = name app \<and> app_workdir app1 = app_workdir app"
  using assms
  by (auto simp: desktop_icon_def Let_def makedirs_def app_workdir_def
      split: if_splits sum.splits option.splits dest: generate_icon_env)

lemma desktop_content_cong:
  "name a = name b \<Longrightarrow> app_workdir a = app_workdir b \<Longrightarrow>
   desktop_content a e i t c = desktop_content b e i t c"
  by (simp add: desktop_content_def)

text \<open>
  C1, as the code has it. For a descriptor with no recorded launcher script, with the
  activation script's path and the entry's path writable, \<open>create_desktop_file\<close> returns the
  entry's path, and the \<open>Exec\<close> line of the entry it writes is \<open>bash -i\<close> on the path of the
  activation script: \<open>create_activation_script\<close> is the only script generator it calls, and
  its result is what the variable \<open>launcher_script\<close> holds. No launcher script is recorded on the
  descriptor. In the scenario of the specification the \<open>Exec\<close> line names \<open>demo.sh\<close>, where
  \<open>save_and_create_script\<close> and \<open>run_selected_app\<close> start \<open>launch_demo.sh\<close>.
\<close>

theorem create_desktop_file_without_launcher:
  assumes nl: "launcher_script app = None"
    and wa: "\<not> read_only st (activation_script_path st (name app))"
    and wd: "\<not> read_only st (path_join (get_desktop_files_dir st) (safe_name (name app) @ ''.desktop''))"
  shows "\<exists>icon app' st'.
           create_desktop_file st f app
             = Inr (Some (path_join (get_desktop_files_dir st) (safe_name (name app) @ ''.desktop'')), app', st')
           \<and> launcher_script app' = None
           \<and> files st' (path_join (get_desktop_files_dir st) (safe_name (name app) @ ''.desktop''))
               = Some (Text (desktop_content app
                        (desktop_exec (activation_script_path st (name app))) icon
                        (terminal_var f) (or_default (categories_var f) ''Development'')), True)"
proof -
  let ?dpath = "path_join (get_desktop_files_dir st) (safe_name (name app) @ ''.desktop'')"
  let ?act = "activation_script_path st (name app)"
  let ?st0 = "makedirs st (get_desktop_files_dir st)"
  let ?st1 = "?st0\<lparr>files := (files ?st0)(?act \<mapsto> (Text (activation_script_content app), True))\<rparr>"
  have p0: "activation_script_path ?st0 (name app) = ?act" "read_only ?st0 = read_only st"
    by (simp_all add: makedirs_def activation_script_path_def scripts_dir_def config_dir_def)
  have a: "create_activation_script ?st0 app = Inr (?act, ?st1)"
    using create_activation_script_ok [of ?st0 app] wa p0 by simp
  obtain icon app1 st2 where ic: "desktop_icon ?st1 f app = (icon, app1, st2)"
    by (cases "desktop_icon ?st1 f app") auto
  note k = desktop_icon_keeps [OF ic] desktop_icon_env [OF ic]
  have ro: "\<not> read_only st2 ?dpath"
    using k wd by (simp add: makedirs_def)
  let ?text = "desktop_content app1 (desktop_exec ?act) icon (terminal_var f)
                 (or_default (categories_var f) ''Development'')"
  let ?st3 = "st2\<lparr>files := (files st2)(?dpath \<mapsto> (Text ?text, True))\<rparr>"
  have w: "write_file st2 ?dpath (Text ?text) True = Inr ?st3"
    using ro by (simp add: write_file_def)
  have "create_desktop_file st f app = Inr (Some ?dpath, app1\<lparr>desktop_file := Some ?dpath\<rparr>, ?st3)"
    using nl a ic w by (simp add: create_desktop_file_def Let_def)
  moreover have "?text = desktop_content app (desktop_exec ?act) icon (terminal_var f)
                 (or_default (categories_var f) ''Development'')"
    using k by (intro desktop_content_cong) simp_all
  moreover have "launcher_script (app1\<lparr>desktop_file := Some ?dpath\<rparr>) = None"
    using k nl by simp
  ultimately show ?thesis by auto
qed

theorem create_desktop_file_without_launcher_witness:
  "launcher_script demo_app = None
   \<and> \<not> read_only demo_env (activation_script_path demo_env (name demo_app))
   \<and> \<not> read_only demo_env (path_join (get_desktop_files_dir demo_env) (safe_name (name demo_app) @ ''.desktop''))
   \<and> (\<exists>icon app' st'.
           create_desktop_file demo_env demo_desktop_form demo_app
             = Inr (Some (path_join (get_desktop_files_dir demo_env) (safe_name (name demo_app) @ ''.desktop'')), app', st')
           \<and> launcher_script app' = None
           \<and> files st' (path_join (get_desktop_files_dir demo_env) (safe_name (name demo_app) @ ''.desktop''))
               = Some (Text (desktop_content demo_app
                        (desktop_exec (activation_script_path demo_env (name demo_app))) icon
                        (terminal_var demo_desktop_form)
                        (or_default (categories_var demo_desktop_form) ''Development'')), True))"
proof -
  have nl: "launcher_script demo_app = None"
    by (simp add: demo_app_def form_config_def)
  have ro: "\<not> read_only demo_env p" for p
    by (simp add: demo_env_def)
  from create_desktop_file_without_launcher [OF nl ro ro, of demo_desktop_form] nl ro
  show ?thesis by blast
qed

lemma demo_paths:
  "activation_script_path demo_env (name demo_app) = ''/home/u/.python_app_launcher/scripts/demo.sh''
   \<and> launcher_script_path demo_env (name demo_app) = ''/home/u/.python_app_launcher/scripts/launch_demo.sh''"
  by code_simp

lemma demo_exec:
  "lines_text [''Exec=bash -i '' @ single_quoted ''/home/u/.python_app_launcher/scripts/demo.sh'']
   = lines_text [''Exec='' @ desktop_exec (activation_script_path demo_env (name demo_app))]"
  by code_simp

section \<open>Rounding to a double\<close>

lemma round_half_even_le: "x \<le> of_int N \<Longrightarrow> round_half_even x \<le> N"
proof -
  assume a: "x \<le> of_int N"
  show ?thesis
  proof (cases "x = of_int N")
    case True
    then show ?thesis by (simp add: round_half_even_def)
  next
    case False
    with a have "x < of_int N" by simp
    then have "\<lfloor>x\<rfloor> < N" by (simp add: floor_less_iff)
    then show ?thesis by (auto simp: round_half_even_def Let_def)
  qed
qed

lemma round_half_even_ge: "of_int N \<le> x \<Longrightarrow> N \<le> round_half_even x"
proof -
  assume "of_int N \<le> x"
  then have "N \<le> \<lfloor>x\<rfloor>" by (simp add: le_floor_iff)
  then show ?thesis by (auto simp: round_half_even_def Let_def)
qed

lemma pow2_pos [simp]: "0 < pow2 e"
  by (simp add: pow2_def)

lemma fl_nonneg: "0 \<le> x \<Longrightarrow> 0 \<le> fl x"
proof -
  assume x: "0 \<le> x"
  have "0 \<le> round_half_even (x / pow2 e)" for e
  proof (rule round_half_even_ge)
    show "of_int 0 \<le> x / pow2 e"
      using x divide_nonneg_pos [OF _ pow2_pos, of x e] by simp
  qed
  then have r: "0 \<le> (of_int (round_half_even (x / pow2 e)) :: rat)" for e
    by simp
  have "0 \<le> of_int (round_half_even (x / pow2 e)) * pow2 e" for e
    by (rule mult_nonneg_nonneg [OF r less_imp_le [OF pow2_pos]])
  then show ?thesis by (simp add: fl_def Let_def)
qed

lemma fl_nonpos: "x \<le> 0 \<Longrightarrow> fl x \<le> 0"
proof -
  assume x: "x \<le> 0"
  have "round_half_even (x / pow2 e) \<le> 0" for e
  proof (rule round_half_even_le)
    show "x / pow2 e \<le> of_int 0"
      using x divide_nonpos_pos [OF _ pow2_pos, of x e] by simp
  qed
  then have "of_int (round_half_even (x / pow2 e)) * pow2 e \<le> 0" for e
    using mult_nonpos_nonneg [of "of_int (round_half_even (x / pow2 e)) :: rat" "pow2 e"]
      pow2_pos [of e] by simp
  then show ?thesis by (simp add: fl_def Let_def)
qed

lemma bit_length_nonneg: "0 \<le> bit_length n"
proof (induction n rule: bit_length.induct)
  case (1 n)
  show ?case
  proof (cases "n \<le> 0")
    case True
    then show ?thesis by (subst bit_length.simps) simp
  next
    case False
    with 1 have "0 \<le> bit_length (n div 2)" by simp
    with False show ?thesis by (subst bit_length.simps) simp
  qed
qed

lemma bit_length_1: "bit_length 1 = 1"
proof -
  have "bit_length 0 = 0" by (subst bit_length.simps) simp
  then show ?thesis by (subst bit_length.simps) simp
qed

lemma ilog2_le_0: "x \<le> 1 \<Longrightarrow> ilog2 x \<le> 0"
proof (cases "1 \<le> x")
  case True
  assume "x \<le> 1"
  with True have "x = 1" by simp
  then show ?thesis by (simp add: ilog2_def bit_length_1)
next
  case False
  then show ?thesis using bit_length_nonneg [of "\<lceil>1 / x\<rceil> - 1"] by (simp add: ilog2_def)
qed

lemma fl_le_1: "x \<le> 1 \<Longrightarrow> fl x \<le> 1"
proof (cases "x \<le> 0")
  case True
  then show ?thesis using fl_nonpos [of x] by simp
next
  case False
  assume x1: "x \<le> 1"
  from False have x0: "0 < x" by simp
  define e where "e = max (ilog2 \<bar>x\<bar> - 52) (- 1074)"
  have e0: "e \<le> 0" using ilog2_le_0 [of "\<bar>x\<bar>"] x0 x1 by (simp add: e_def)
  define N :: int where "N = 2 ^ nat (- e)"
  have pe: "pow2 e = 1 / of_int N" using e0 by (auto simp: pow2_def N_def)
  have Npos: "0 < N" by (simp add: N_def)
  have "x / pow2 e = x * of_int N" by (simp add: pe)
  also have "\<dots> \<le> of_int N" using x1 Npos by (simp add: mult_left_le_one_le)
  finally have "round_half_even (x / pow2 e) \<le> N" by (rule round_half_even_le)
  then have "of_int (round_half_even (x / pow2 e)) * pow2 e \<le> (of_int N :: rat) * pow2 e"
    using pow2_pos [of e] by (simp add: mult_right_mono)
  also have "\<dots> = 1" using Npos by (simp add: pe)
  finally show ?thesis using x0 by (simp add: fl_def Let_def e_def)
qed

section \<open>Lighten and darken\<close>

lemma rgb_to_hsv_value:
  assumes "rgb_to_hsv r g b = Inr (h, s, v)"
  shows "v = max r (max g b)"
proof -
  define maxc where "maxc = max r (max g b)"
  define minc where "minc = min r (min g b)"
  have "rgb_to_hsv r g b =
     (if minc = maxc then Inr (0, 0, maxc)
      else case fdiv (fl (maxc - minc)) maxc of
           Inl e \<Rightarrow> Inl e
         | Inr s \<Rightarrow>
           (case fdiv (fl (maxc - r)) (fl (maxc - minc)) of
              Inl e \<Rightarrow> Inl e
            | Inr rc \<Rightarrow>
              (case fdiv (fl (maxc - g)) (fl (maxc - minc)) of
                 Inl e \<Rightarrow> Inl e
               | Inr gc \<Rightarrow>
                 (case fdiv (fl (maxc - b)) (fl (maxc - minc)) of
                    Inl e \<Rightarrow> Inl e
                  | Inr bc \<Rightarrow>
                      Inr (fmod1 (fl ((if r = maxc then fl (bc - gc)
                                       else if g = maxc then fl (fl (2 + rc) - bc)
                                       else fl (fl (4 + gc) - rc)) / 6)),
                           s, maxc)))))"
    unfolding rgb_to_hsv_def Let_def maxc_def minc_def ..
  with assms have "v = maxc"
    by (simp split: if_splits sum.splits)
  then show ?thesis by (simp add: maxc_def)
qed

text \<open>
  C3, as the code has it. For every colour with channels in \<open>[0, 255]\<close> and every factor in
  \<open>[0, 1]\<close>, \<open>lighten_color\<close> and \<open>darken_color\<close> are the transform of the specification (to
  HSV, the factor added to or subtracted from V as an absolute amount, V clamped to
  \<open>[0, 1]\<close>, back to RGB) with each channel truncated toward zero by \<open>int()\<close>.
\<close>

theorem lighten_darken_truncate:
  assumes "valid_rgb rgb" "0 \<le> factor" "factor \<le> 1"
  shows "lighten_color rgb factor = spec_adjust py_int rgb factor
         \<and> darken_color rgb factor = spec_adjust py_int rgb (- factor)"
proof -
  obtain r g b where rgb: "rgb = (r, g, b)" by (cases rgb) auto
  define r' where "r' = fl (of_int r / 255)"
  define g' where "g' = fl (of_int g / 255)"
  define b' where "b' = fl (of_int b / 255)"
  from assms(1) rgb have u: "0 \<le> r'" "r' \<le> 1" "0 \<le> g'" "g' \<le> 1" "0 \<le> b'" "b' \<le> 1"
    unfolding r'_def g'_def b'_def by (simp_all add: valid_rgb_def fl_nonneg fl_le_1)
  have lc: "lighten_color rgb factor =
      (case rgb_to_hsv r' g' b' of Inl e \<Rightarrow> Inl e
       | Inr (h, s, v) \<Rightarrow> Inr (channels py_int (hsv_to_rgb h s (min 1 (fl (v + factor))))))"
    and dc: "darken_color rgb factor =
      (case rgb_to_hsv r' g' b' of Inl e \<Rightarrow> Inl e
       | Inr (h, s, v) \<Rightarrow> Inr (channels py_int (hsv_to_rgb h s (max 0 (fl (v - factor))))))"
    and sa: "spec_adjust py_int rgb d =
      (case rgb_to_hsv r' g' b' of Inl e \<Rightarrow> Inl e
       | Inr (h, s, v) \<Rightarrow> Inr (channels py_int (hsv_to_rgb h s (clamp01 (fl (v + d))))))" for d
    unfolding lighten_color_def darken_color_def spec_adjust_def rgb r'_def g'_def b'_def
    by simp_all
  show ?thesis
  proof (cases "rgb_to_hsv r' g' b'")
    case (Inl e)
    then show ?thesis by (simp add: lc dc sa)
  next
    case (Inr t)
    then obtain h s v where hsv: "rgb_to_hsv r' g' b' = Inr (h, s, v)" by (cases t) auto
    from rgb_to_hsv_value [OF hsv] u have v: "0 \<le> v" "v \<le> 1" by auto
    have "0 \<le> fl (v + factor)" using v assms(2) by (simp add: fl_nonneg)
    then have l: "clamp01 (fl (v + factor)) = min 1 (fl (v + factor))"
      by (simp add: clamp01_def)
    have "fl (v - factor) \<le> 1" using v assms(2) by (simp add: fl_le_1)
    then have d: "clamp01 (fl (v + - factor)) = max 0 (fl (v - factor))"
      by (simp add: clamp01_def)
    from hsv l d show ?thesis
      by (simp add: lc dc sa)
  qed
qed


lemma fl_1: "fl 1 = 1"
  by code_simp

lemma fl_015: "fl (3 / 20) = 5404319552844595 / 36028797018963968"
  by code_simp

lemma fl_085: "fl (30624477466119373 / 36028797018963968) = 7656119366529843 / 9007199254740992"
  by code_simp

lemma fl_216: "fl (1952310438465109965 / 9007199254740992) = 867 / 4"
  by code_simp

lemma py_int_216: "py_int (867 / 4) = 216"
  by code_simp

lemma round_217: "round_half_even (867 / 4) = 217"
  by code_simp

lemma darken_white: "darken_color (255, 255, 255) (fl (15 / 100)) = Inr (216, 216, 216)"
  by (simp add: darken_color_def rgb_to_hsv_def hsv_to_rgb_def channels_def py_int_216
      fl_1 fl_015 fl_085 fl_216 Let_def)

theorem lighten_darken_truncate_witness:
  "valid_rgb (255, 255, 255) \<and> 0 \<le> fl (15 / 100) \<and> fl (15 / 100) \<le> 1
   \<and> spec_adjust py_int (255, 255, 255) (- fl (15 / 100)) = Inr (216, 216, 216)"
proof -
  have h: "valid_rgb (255, 255, 255)" "0 \<le> fl (15 / 100)" "fl (15 / 100) \<le> 1"
    by (simp_all add: valid_rgb_def fl_015)
  from lighten_darken_truncate [OF h] darken_white h show ?thesis by simp
qed

text \<open>
  C3, as the specification states it, fails: the channels are not rounded to the nearest
  integer. Darkening white by the literal \<open>0.15\<close> gives the channel value 216.75, which the
  code truncates to 216; rounding to the nearest integer gives 217.
\<close>

theorem darken_truncates_not_rounds:
  "darken_color (255, 255, 255) (fl (15 / 100)) = Inr (216, 216, 216)
   \<and> spec_adjust round_half_even (255, 255, 255) (- fl (15 / 100)) = Inr (217, 217, 217)"
  by (simp add: darken_color_def spec_adjust_def rgb_to_hsv_def hsv_to_rgb_def channels_def
      py_int_216 round_217 clamp01_def fl_1 fl_015 fl_085 fl_216 Let_def)

section \<open>Saving under a name\<close>

lemma set_scripts_upsert:
  "set_scripts (name c) a l (upsert c apps) =
     (case find_app (name c) apps of
        Some i \<Rightarrow> apps[i := c\<lparr>activation_script := Some a, launcher_script := Some l\<rparr>]
      | None \<Rightarrow> apps @ [c\<lparr>activation_script := Some a, launcher_script := Some l\<rparr>])"
proof (cases "find_app (name c) apps")
  case None
  then have "find_app (name c) (apps @ [c]) = Some (length apps)"
    by (simp add: find_app_append)
  with None show ?thesis by (simp add: set_scripts_def upsert_def)
next
  case (Some i)
  note i = find_app_Some [OF Some]
  have "map name (apps[i := c]) = map name apps"
    using i by (simp add: map_name_update)
  from find_app_names [OF this, of "name c"] Some
  have "find_app (name c) (apps[i := c]) = Some i" by simp
  with Some i show ?thesis by (simp add: set_scripts_def upsert_def)
qed

lemma save_and_create_script_accepted:
  fixes st f now ov rn
  defines "cfg \<equiv> form_config f now"
  defines "act \<equiv> activation_script_path st (name cfg)"
  defines "lau \<equiv> launcher_script_path st (name cfg)"
  assumes v: "name cfg \<noteq> []" "venv cfg \<noteq> []" "script cfg \<noteq> []"
      "path_exists st (venv cfg)" "path_exists st (script cfg)"
    and w: "\<not> read_only st act" "\<not> read_only st lau"
    and o: "find_app (name cfg) (saved_apps st) = None \<or> ov"
  shows "\<exists>st'. save_and_create_script st f now ov rn = Inr st'
           \<and> saved_apps st' = set_scripts (name cfg) act lau (upsert cfg (saved_apps st))"
proof -
  let ?st1 = "save_apps (st\<lparr>saved_apps := upsert cfg (saved_apps st)\<rparr>)"
  let ?st2 = "?st1\<lparr>files := (files ?st1)(act \<mapsto> (Text (activation_script_content cfg), True))\<rparr>"
  let ?st3 = "?st2\<lparr>files := (files ?st2)(lau \<mapsto> (Text (launcher_script_content cfg act), True))\<rparr>"
  let ?st4 = "?st3\<lparr>saved_apps := set_scripts (name cfg) act lau (saved_apps ?st3)\<rparr>"
  have a: "create_activation_script ?st1 cfg = Inr (act, ?st2)"
    using create_activation_script_ok [of ?st1 cfg] w(1) by (simp add: act_def)
  have l: "create_xterm_launcher ?st2 cfg act = Inr (lau, ?st3)"
    using create_xterm_launcher_ok [of ?st2 cfg act] w(2) by (simp add: lau_def)
  have "save_and_create_script st f now ov rn
          = Inr (if rn then run_script_file ?st4 lau else ?st4)"
    using v o a l
    by (auto simp: save_and_create_script_def Let_def cfg_def [symmetric])
  moreover have "saved_apps (if rn then run_script_file ?st4 lau else ?st4)
        = set_scripts (name cfg) act lau (upsert cfg (saved_apps st))"
    by simp
  ultimately show ?thesis by metis
qed

lemma save_and_create_script_declined:
  "find_app (name (form_config f now)) (saved_apps st) \<noteq> None \<Longrightarrow> \<not> ov \<Longrightarrow>
   save_and_create_script st f now ov rn = Inr st"
  by (simp add: save_and_create_script_def Let_def)

lemma save_names_prefix:
  "prefix (map name (saved_apps st))
     (map name (saved_apps (state_after (save_and_create_script st f now ov rn))))"
  using save_and_create_script_names [of st f now ov rn] upsert_names [of "form_config f now" "saved_apps st"]
  by (auto split: if_splits)

lemma save_names_distinct:
  "distinct (map name (saved_apps st)) \<Longrightarrow>
   distinct (map name (saved_apps (state_after (save_and_create_script st f now ov rn))))"
  using save_and_create_script_names [of st f now ov rn]
    upsert_distinct [of "saved_apps st" "form_config f now"] by auto

lemma saves_invariant:
  "distinct (map name (saved_apps st)) \<Longrightarrow>
   distinct (map name (saved_apps (saves st reqs)))
   \<and> prefix (map name (saved_apps st)) (map name (saved_apps (saves st reqs)))"
proof (induction st reqs rule: saves.induct)
  case (1 st)
  then show ?case by simp
next
  case (2 st f now overwrite run_now rest)
  let ?st' = "state_after (save_and_create_script st f now overwrite run_now)"
  from save_names_distinct [OF "2.prems"] have d: "distinct (map name (saved_apps ?st'))" .
  from "2.IH" [OF d] save_names_prefix [of st f now overwrite run_now]
  show ?case by (auto intro: prefix_order.trans)
qed

text \<open>
  C7. Let the form pass the checks of \<open>save_and_create_script\<close> and the two script paths be
  writable. When the name is already in the registry, at its first index \<open>i\<close>, and the
  overwrite is confirmed, the call returns and the registry is the old list with the entry at
  \<open>i\<close> replaced by the new descriptor (with its two script paths): same length, every other
  position as it was. When the name is not in the registry, the registry is the old list
  with the new descriptor appended. When the name is there and the overwrite is declined,
  nothing changes. Whatever the call does, and whether it returns or raises, the names of the
  old registry stay, in their order, the first names of the new one; and from a registry with
  one descriptor per name, one call, and every sequence of calls, leaves a registry with one
  descriptor per name.
\<close>

theorem upsert_replaces_in_place:
  fixes st :: launcher and f :: form and now :: string and ov rn :: bool and i :: nat
  defines "cfg \<equiv> form_config f now"
  defines "cfg' \<equiv> cfg\<lparr>activation_script := Some (activation_script_path st (name cfg)),
                        launcher_script := Some (launcher_script_path st (name cfg))\<rparr>"
  defines "accepted \<equiv> name cfg \<noteq> [] \<and> venv cfg \<noteq> [] \<and> script cfg \<noteq> []
      \<and> path_exists st (venv cfg) \<and> path_exists st (script cfg)
      \<and> \<not> read_only st (activation_script_path st (name cfg))
      \<and> \<not> read_only st (launcher_script_path st (name cfg))"
  shows "(accepted \<and> ov \<and> find_app (name cfg) (saved_apps st) = Some i \<longrightarrow>
            i < length (saved_apps st) \<and> name (saved_apps st ! i) = name cfg
            \<and> (\<forall>j < i. name (saved_apps st ! j) \<noteq> name cfg)
            \<and> (\<exists>st'. save_and_create_script st f now ov rn = Inr st'
                  \<and> saved_apps st' = (saved_apps st)[i := cfg']
                  \<and> length (saved_apps st') = length (saved_apps st)
                  \<and> saved_apps st' ! i = cfg'
                  \<and> (\<forall>j < length (saved_apps st). j \<noteq> i \<longrightarrow> saved_apps st' ! j = saved_apps st ! j)))
       \<and> (accepted \<and> find_app (name cfg) (saved_apps st) = None \<longrightarrow>
            name cfg \<notin> set (map name (saved_apps st))
            \<and> (\<exists>st'. save_and_create_script st f now ov rn = Inr st'
                  \<and> saved_apps st' = saved_apps st @ [cfg']))
       \<and> (find_app (name cfg) (saved_apps st) \<noteq> None \<and> \<not> ov \<longrightarrow>
            save_and_create_script st f now ov rn = Inr st)
       \<and> prefix (map name (saved_apps st))
            (map name (saved_apps (state_after (save_and_create_script st f now ov rn))))
       \<and> (distinct (map name (saved_apps st)) \<longrightarrow>
            distinct (map name (saved_apps (state_after (save_and_create_script st f now ov rn))))
            \<and> distinct (map name (saved_apps (saves st reqs)))
            \<and> prefix (map name (saved_apps st)) (map name (saved_apps (saves st reqs))))"
proof -
  have A: "i < length (saved_apps st) \<and> name (saved_apps st ! i) = name cfg
            \<and> (\<forall>j < i. name (saved_apps st ! j) \<noteq> name cfg)
            \<and> (\<exists>st'. save_and_create_script st f now ov rn = Inr st'
                  \<and> saved_apps st' = (saved_apps st)[i := cfg']
                  \<and> length (saved_apps st') = length (saved_apps st)
                  \<and> saved_apps st' ! i = cfg'
                  \<and> (\<forall>j < length (saved_apps st). j \<noteq> i \<longrightarrow> saved_apps st' ! j = saved_apps st ! j))"
    if acc: "accepted" and yes: "ov" and fa: "find_app (name cfg) (saved_apps st) = Some i"
  proof -
    note i = find_app_Some [OF fa]
    from acc have "\<exists>st'. save_and_create_script st f now ov rn = Inr st'
           \<and> saved_apps st' = set_scripts (name cfg) (activation_script_path st (name cfg))
                (launcher_script_path st (name cfg)) (upsert cfg (saved_apps st))"
      unfolding accepted_def cfg_def
      by (intro save_and_create_script_accepted) (use yes in simp_all)
    then obtain st' where st': "save_and_create_script st f now ov rn = Inr st'"
      "saved_apps st' = (saved_apps st)[i := cfg']"
      using fa by (auto simp: set_scripts_upsert cfg'_def)
    with i show ?thesis by auto
  qed
  have B: "name cfg \<notin> set (map name (saved_apps st))
            \<and> (\<exists>st'. save_and_create_script st f now ov rn = Inr st'
                  \<and> saved_apps st' = saved_apps st @ [cfg'])"
    if "accepted" "find_app (name cfg) (saved_apps st) = None"
  proof -
    from that(1) have "\<exists>st'. save_and_create_script st f now ov rn = Inr st'
           \<and> saved_apps st' = set_scripts (name cfg) (activation_script_path st (name cfg))
                (launcher_script_path st (name cfg)) (upsert cfg (saved_apps st))"
      unfolding accepted_def cfg_def
      by (intro save_and_create_script_accepted) (use that(2) in \<open>simp_all add: cfg_def\<close>)
    then have "\<exists>st'. save_and_create_script st f now ov rn = Inr st'
                  \<and> saved_apps st' = saved_apps st @ [cfg']"
      using that(2) by (auto simp: set_scripts_upsert cfg'_def)
    moreover have "name cfg \<notin> set (map name (saved_apps st))"
      using that(2) find_app_None [of "name cfg" "saved_apps st"] by simp
    ultimately show ?thesis by simp
  qed
  have C: "save_and_create_script st f now ov rn = Inr st"
    if "find_app (name cfg) (saved_apps st) \<noteq> None" "\<not> ov"
    using that unfolding cfg_def by (rule save_and_create_script_declined)
  show ?thesis
    using A B C save_names_prefix [of st f now ov rn] save_names_distinct [of st f now ov rn]
      saves_invariant [of st reqs]
    by blast
qed

lemma demo_config:
  "name (form_config demo_form ''2025-06-01T09:00:00'') = ''Demo''
   \<and> venv (form_config demo_form ''2025-06-01T09:00:00'') = ''/home/u/.venvs/demo''
   \<and> script (form_config demo_form ''2025-06-01T09:00:00'') = ''/home/u/demo/app.py''"
  by code_simp

lemma demo_env_paths:
  "path_exists (demo_env\<lparr>saved_apps := xs\<rparr>) ''/home/u/.venvs/demo''
   \<and> path_exists (demo_env\<lparr>saved_apps := xs\<rparr>) ''/home/u/demo/app.py''
   \<and> \<not> read_only (demo_env\<lparr>saved_apps := xs\<rparr>) q"
  by (simp add: path_exists_def demo_env_def)

lemma demo_three:
  "find_app ''Demo'' [demo_app\<lparr>name := ''Alpha''\<rparr>, demo_app, demo_app\<lparr>name := ''Gamma''\<rparr>] = Some 1
   \<and> distinct (map name [demo_app\<lparr>name := ''Alpha''\<rparr>, demo_app, demo_app\<lparr>name := ''Gamma''\<rparr>])"
  by (simp add: demo_app_name)

theorem upsert_replaces_in_place_witness:
  "name (form_config demo_form ''2025-06-01T09:00:00'') \<noteq> []
   \<and> venv (form_config demo_form ''2025-06-01T09:00:00'') \<noteq> []
   \<and> script (form_config demo_form ''2025-06-01T09:00:00'') \<noteq> []
   \<and> path_exists
        (demo_env\<lparr>saved_apps := [demo_app\<lparr>name := ''Alpha''\<rparr>, demo_app, demo_app\<lparr>name := ''Gamma''\<rparr>]\<rparr>)
        (venv (form_config demo_form ''2025-06-01T09:00:00''))
   \<and> path_exists
        (demo_env\<lparr>saved_apps := [demo_app\<lparr>name := ''Alpha''\<rparr>, demo_app, demo_app\<lparr>name := ''Gamma''\<rparr>]\<rparr>)
        (script (form_config demo_form ''2025-06-01T09:00:00''))
   \<and> find_app (name (form_config demo_form ''2025-06-01T09:00:00''))
        (saved_apps (demo_env\<lparr>saved_apps := [demo_app\<lparr>name := ''Alpha''\<rparr>, demo_app, demo_app\<lparr>name := ''Gamma''\<rparr>]\<rparr>))
       = Some 1
   \<and> distinct (map name (saved_apps
        (demo_env\<lparr>saved_apps := [demo_app\<lparr>name := ''Alpha''\<rparr>, demo_app, demo_app\<lparr>name := ''Gamma''\<rparr>]\<rparr>)))
   \<and> (\<exists>st'. save_and_create_script
         (demo_env\<lparr>saved_apps := [demo_app\<lparr>name := ''Alpha''\<rparr>, demo_app, demo_app\<lparr>name := ''Gamma''\<rparr>]\<rparr>)
         demo_form ''2025-06-01T09:00:00'' True False = Inr st'
       \<and> saved_apps st' =
           [demo_app\<lparr>name := ''Alpha''\<rparr>,
            (form_config demo_form ''2025-06-01T09:00:00'')
              \<lparr>activation_script := Some (activation_script_path demo_env ''Demo''),
                 launcher_script := Some (launcher_script_path demo_env ''Demo'')\<rparr>,
            demo_app\<lparr>name := ''Gamma''\<rparr>])
   \<and> distinct (map name (saved_apps (saves
        (demo_env\<lparr>saved_apps := [demo_app\<lparr>name := ''Alpha''\<rparr>, demo_app, demo_app\<lparr>name := ''Gamma''\<rparr>]\<rparr>)
        [(demo_form, ''2025-06-01T09:00:00'', True, False)])))"
proof -
  let ?apps = "[demo_app\<lparr>name := ''Alpha''\<rparr>, demo_app, demo_app\<lparr>name := ''Gamma''\<rparr>]"
  let ?S = "demo_env\<lparr>saved_apps := ?apps\<rparr>"
  let ?cfg = "form_config demo_form ''2025-06-01T09:00:00''"
  note T = upsert_replaces_in_place [where st = ?S and f = demo_form
      and now = "''2025-06-01T09:00:00''" and ov = True and rn = False and i = 1
      and reqs = "[(demo_form, ''2025-06-01T09:00:00'', True, False)]"]
  have apps: "saved_apps ?S = ?apps" by simp
  have hyps: "name ?cfg \<noteq> []" "venv ?cfg \<noteq> []" "script ?cfg \<noteq> []"
    "path_exists ?S (venv ?cfg)" "path_exists ?S (script ?cfg)"
    "\<not> read_only ?S (activation_script_path ?S (name ?cfg))"
    "\<not> read_only ?S (launcher_script_path ?S (name ?cfg))"
    using demo_env_paths [of ?apps] by (simp_all add: demo_config)
  have fa: "find_app (name ?cfg) (saved_apps ?S) = Some 1"
    unfolding apps using demo_three by (simp add: demo_config)
  have d: "distinct (map name (saved_apps ?S))"
    unfolding apps using demo_three by simp
  from T [THEN conjunct1, rule_format] hyps fa
  obtain st' where r: "save_and_create_script ?S demo_form ''2025-06-01T09:00:00'' True False = Inr st'"
    and a: "saved_apps st' = (saved_apps ?S)[1 := ?cfg
         \<lparr>activation_script := Some (activation_script_path ?S (name ?cfg)),
            launcher_script := Some (launcher_script_path ?S (name ?cfg))\<rparr>]"
    by blast
  have l: "(saved_apps ?S)[1 := x] = [demo_app\<lparr>name := ''Alpha''\<rparr>, x, demo_app\<lparr>name := ''Gamma''\<rparr>]" for x
    unfolding apps by simp
  have p: "activation_script_path ?S (name ?cfg) = activation_script_path demo_env ''Demo''"
    "launcher_script_path ?S (name ?cfg) = launcher_script_path demo_env ''Demo''"
    by (simp_all add: demo_config)
  from a have a': "saved_apps st' = [demo_app\<lparr>name := ''Alpha''\<rparr>,
            ?cfg\<lparr>activation_script := Some (activation_script_path demo_env ''Demo''),
                 launcher_script := Some (launcher_script_path demo_env ''Demo'')\<rparr>,
            demo_app\<lparr>name := ''Gamma''\<rparr>]"
    unfolding l p .
  from T [THEN conjunct2, THEN conjunct2, THEN conjunct2, THEN conjunct2, rule_format, OF d]
  have s: "distinct (map name (saved_apps (saves ?S [(demo_form, ''2025-06-01T09:00:00'', True, False)])))"
    by (rule conjunct2 [THEN conjunct1])
  from r a' have e: "\<exists>st'. save_and_create_script ?S demo_form ''2025-06-01T09:00:00'' True False = Inr st'
       \<and> saved_apps st' = [demo_app\<lparr>name := ''Alpha''\<rparr>,
            ?cfg\<lparr>activation_script := Some (activation_script_path demo_env ''Demo''),
                 launcher_script := Some (launcher_script_path demo_env ''Demo'')\<rparr>,
            demo_app\<lparr>name := ''Gamma''\<rparr>]"
    by blast
  show ?thesis
    by (intro conjI hyps fa d e s)
qed

end
